theory Spec2Isabelle
  imports Complex_Main "HOL-Library.Word"
begin

section \<open>The CSG surface model of Surface.cpp\<close>

text \<open>
  Conventions of the embedding.
  \<^item> A C++ \<open>int\<close> that the code increments (the two id counters) is a 32-bit word,
    read as two's complement with \<open>sint\<close>; the increment wraps around.
  \<^item> A \<open>double\<close> is a real number: the model is the exact-arithmetic reading of the
    code. Where real arithmetic has no value for what the code computes (a division
    by zero, a tangent at its pole) the model returns \<open>None\<close> instead of a number.
  \<^item> A \<open>Cell*\<close> is an address; the Cells live in a heap indexed by address.
  \<^item> Global and member state is passed explicitly and returned updated.
\<close>

subsection \<open>Data\<close>

type_synonym c_int = "32 word"

datatype surfaceType = PLANE | ZCYLINDER | XPLANE | YPLANE | ZPLANE

datatype boundaryType = VACUUM | REFLECTIVE | BOUNDARY_NONE

type_synonym cell_ptr = nat

record Cell =
  c_id :: int
  c_neighbors :: "cell_ptr list"

type_synonym cell_heap = "cell_ptr \<Rightarrow> Cell"

text \<open>The file-level statics \<open>auto_id\<close> and \<open>Surface::_n\<close>.\<close>

record globals =
  auto_id :: c_int
  Surface_n :: c_int

definition initial_globals :: globals where
  "initial_globals = \<lparr>auto_id = 10000, Surface_n = 0\<rparr>"

text \<open>
  The members of \<open>Surface\<close>. The map \<open>_neighbors\<close> has the keys \<open>-1\<close> and \<open>+1\<close>;
  it is a function from the key to the vector stored there. The base constructor does
  not set \<open>_surface_type\<close>: it is \<open>None\<close> until a subclass constructor assigns it.
\<close>

record Surface =
  s_uid :: c_int
  s_id :: c_int
  s_name :: string
  s_surface_type :: "surfaceType option"
  s_boundary_type :: boundaryType
  s_neighbors :: "int \<Rightarrow> cell_ptr list"

text \<open>
  Modelled from the spec: \<open>log_printf\<close> is not among the source files. The spec makes
  an invalid halfspace a hard error that aborts with a diagnostic naming the offending
  Cell and Surface ids; the error value carries the three numbers of the format string
  of the call: the Cell id, the Surface id and the halfspace.
\<close>

datatype error = InvalidHalfspace int int int

subsection \<open>Id allocation and the base constructor\<close>

definition surf_id :: "globals \<Rightarrow> c_int \<times> globals" where
  "surf_id g = (let the_id = auto_id g in (the_id, g\<lparr>auto_id := auto_id g + 1\<rparr>))"

definition reset_surf_id :: "globals \<Rightarrow> globals" where
  "reset_surf_id g = g\<lparr>auto_id := 10000\<rparr>"

definition setName :: "string \<Rightarrow> 'a Surface_scheme \<Rightarrow> 'a Surface_scheme" where
  "setName name s = s\<lparr>s_name := name\<rparr>"

definition setBoundaryType :: "boundaryType \<Rightarrow> 'a Surface_scheme \<Rightarrow> 'a Surface_scheme" where
  "setBoundaryType boundary_type s = s\<lparr>s_boundary_type := boundary_type\<rparr>"

definition Surface_ctor :: "c_int \<Rightarrow> string \<Rightarrow> globals \<Rightarrow> Surface \<times> globals" where
  "Surface_ctor id_arg name g =
     (let (the_id, g1) = (if id_arg = 0 then surf_id g else (id_arg, g));
          uid = Surface_n g1;
          g2 = g1\<lparr>Surface_n := Surface_n g1 + 1\<rparr>
      in (setName name
            \<lparr>s_uid = uid, s_id = the_id, s_name = [], s_surface_type = None,
             s_boundary_type = BOUNDARY_NONE, s_neighbors = (\<lambda>_. [])\<rparr>,
          g2))"

definition getUid :: "'a Surface_scheme \<Rightarrow> c_int" where
  "getUid s = s_uid s"

definition getId :: "'a Surface_scheme \<Rightarrow> c_int" where
  "getId s = s_id s"

definition getName :: "'a Surface_scheme \<Rightarrow> string" where
  "getName s = s_name s"

subsection \<open>Neighbor Cells\<close>

text \<open>
  Modelled from the spec: the \<open>Cell\<close> class, with \<open>Cell::addNeighborCell\<close> and the
  Cell's adjacency query, is not among the source files. The spec has a Cell informed
  of a new adjacency and the adjacency discoverable through the Cell's query, with no
  duplicate references: the informed Cell records the other Cell once.
\<close>

definition Cell_addNeighborCell :: "cell_ptr \<Rightarrow> cell_ptr \<Rightarrow> cell_heap \<Rightarrow> cell_heap" where
  "Cell_addNeighborCell this cell h =
     (if cell \<in> set (c_neighbors (h this)) then h
      else h(this := (h this)\<lparr>c_neighbors := c_neighbors (h this) @ [cell]\<rparr>))"


text \<open>
  One of the two nested loops at the end of \<open>Surface::addNeighborCell\<close>: every Cell of
  the outer vector is told of every Cell of the inner vector.
\<close>

definition inform_all :: "cell_ptr list \<Rightarrow> cell_ptr list \<Rightarrow> cell_heap \<Rightarrow> cell_heap" where
  "inform_all outer inner h =
     fold (\<lambda>iter1 h1. fold (\<lambda>iter2 h2. Cell_addNeighborCell iter1 iter2 h2) inner h1) outer h"

definition Surface_addNeighborCell ::
  "int \<Rightarrow> cell_ptr \<Rightarrow> Surface \<times> cell_heap \<Rightarrow> error + Surface \<times> cell_heap" where
  "Surface_addNeighborCell halfspace cell st =
     (case st of (s, h) \<Rightarrow>
        if halfspace \<noteq> -1 \<and> halfspace \<noteq> 1
        then Inl (InvalidHalfspace (c_id (h cell)) (sint (s_id s)) halfspace)
        else
          let neighbors = s_neighbors s halfspace;
              neighbors' = (if cell \<notin> set neighbors then neighbors @ [cell] else neighbors);
              s' = s\<lparr>s_neighbors := (s_neighbors s)(halfspace := neighbors')\<rparr>;
              h1 = inform_all (s_neighbors s' (-1)) (s_neighbors s' 1) h;
              h2 = inform_all (s_neighbors s' 1) (s_neighbors s' (-1)) h1
          in Inr (s', h2))"

text \<open>A sequence of calls on one Surface; the first error aborts the rest.\<close>

fun addNeighborCells ::
  "(int \<times> cell_ptr) list \<Rightarrow> Surface \<times> cell_heap \<Rightarrow> error + Surface \<times> cell_heap" where
  "addNeighborCells [] st = Inr st"
| "addNeighborCells ((halfspace, cell) # calls) st =
     (case Surface_addNeighborCell halfspace cell st of
        Inl e \<Rightarrow> Inl e
      | Inr st' \<Rightarrow> addNeighborCells calls st')"

text \<open>The invariant of the two neighbor vectors.\<close>

definition no_duplicates :: "Surface \<Rightarrow> bool" where
  "no_duplicates s \<longleftrightarrow> distinct (s_neighbors s (-1)) \<and> distinct (s_neighbors s 1)"



text \<open>Fresh Cells (no neighbors yet) and freshly constructed Surfaces.\<close>

definition fresh_cells :: cell_heap where
  "fresh_cells = (\<lambda>p. \<lparr>c_id = int p, c_neighbors = []\<rparr>)"

definition fresh_surface :: Surface where
  "fresh_surface = fst (Surface_ctor 0 [] initial_globals)"

text \<open>
  Consecutive auto-assignments: one Surface is constructed with the id argument 0 for
  each name of the list, in order; the result is the list of their ids.
\<close>

fun auto_assign :: "string list \<Rightarrow> globals \<Rightarrow> c_int list \<times> globals" where
  "auto_assign [] g = ([], g)"
| "auto_assign (name # names) g =
     (let (s, g1) = Surface_ctor 0 name g;
          (ids, g2) = auto_assign names g1
      in (getId s # ids, g2))"

subsection \<open>Points and real arithmetic\<close>

text \<open>
  A \<open>Point\<close> is a 3D coordinate, held by value; \<open>points\<close>, the caller's buffer of
  \<open>Plane::intersection\<close> and \<open>ZCylinder::intersection\<close>, is the memory the pointer
  addresses, a function from the index to the Point stored there.
\<close>

record Point =
  pt_x :: real
  pt_y :: real
  pt_z :: real

definition setCoords :: "real \<Rightarrow> real \<Rightarrow> real \<Rightarrow> Point" where
  "setCoords x y z = \<lparr>pt_x = x, pt_y = y, pt_z = z\<rparr>"

text \<open>
  Division and tangent where the reals have a value for them. A \<open>double\<close> division by
  zero gives an infinity or a NaN and the code goes on; the model stops with \<open>None\<close>
  there, and so it does at a pole of the tangent.
\<close>

definition fdiv :: "real \<Rightarrow> real \<Rightarrow> real option" where
  "fdiv a b = (if b = 0 then None else Some (a / b))"

definition ftan :: "real \<Rightarrow> real option" where
  "ftan x = (if cos x = 0 then None else Some (tan x))"

subsection \<open>Planes\<close>

record Plane = Surface +
  p_A :: real
  p_B :: real
  p_C :: real
  p_D :: real

record XPlane = Plane +
  xp_x :: real

record YPlane = Plane +
  yp_y :: real

record ZPlane = Plane +
  zp_z :: real

definition Plane_ctor ::
  "real \<Rightarrow> real \<Rightarrow> real \<Rightarrow> real \<Rightarrow> c_int \<Rightarrow> string \<Rightarrow> globals \<Rightarrow> Plane \<times> globals" where
  "Plane_ctor A B C D id_arg name g =
     (let (s, g') = Surface_ctor id_arg name g
      in (Surface.extend (s\<lparr>s_surface_type := Some PLANE\<rparr>)
            (Plane.fields A B C D), g'))"

text \<open>
  The constructors of the axis-aligned planes. \<open>XPlane\<close> and \<open>YPlane\<close> call the
  \<open>Plane\<close> constructor with five arguments, so its sixth, the name, takes the default
  that the declaration of \<open>Plane\<close> in Surface.h gives it. Surface.h is not among the
  source files: the default is the parameter \<open>default_name\<close>. \<open>ZPlane\<close> passes its
  own \<open>name\<close> on.
\<close>

definition XPlane_ctor ::
  "string \<Rightarrow> real \<Rightarrow> c_int \<Rightarrow> string \<Rightarrow> globals \<Rightarrow> XPlane \<times> globals" where
  "XPlane_ctor default_name x id_arg name g =
     (let (p, g') = Plane_ctor 1 0 0 (- x) id_arg default_name g
      in (Plane.extend (p\<lparr>s_surface_type := Some XPLANE\<rparr>) (XPlane.fields x), g'))"

definition YPlane_ctor ::
  "string \<Rightarrow> real \<Rightarrow> c_int \<Rightarrow> string \<Rightarrow> globals \<Rightarrow> YPlane \<times> globals" where
  "YPlane_ctor default_name y id_arg name g =
     (let (p, g') = Plane_ctor 0 1 0 (- y) id_arg default_name g
      in (Plane.extend (p\<lparr>s_surface_type := Some YPLANE\<rparr>) (YPlane.fields y), g'))"

definition ZPlane_ctor :: "real \<Rightarrow> c_int \<Rightarrow> string \<Rightarrow> globals \<Rightarrow> ZPlane \<times> globals" where
  "ZPlane_ctor z id_arg name g =
     (let (p, g') = Plane_ctor 0 0 1 (- z) id_arg name g
      in (Plane.extend (p\<lparr>s_surface_type := Some ZPLANE\<rparr>) (ZPlane.fields z), g'))"

text \<open>
  \<open>Plane::intersection\<close>: the number of intersections and the buffer afterwards.
  The parallel case returns before the buffer is touched; otherwise the point is
  written to \<open>points[0]\<close> whether or not it is counted.
\<close>

definition Plane_intersection ::
  "'a Plane_scheme \<Rightarrow> Point \<Rightarrow> real \<Rightarrow> real \<Rightarrow> (nat \<Rightarrow> Point)
     \<Rightarrow> (nat \<times> (nat \<Rightarrow> Point)) option" where
  "Plane_intersection s point azim polar points =
     (let x0 = pt_x point; y0 = pt_y point; z0 = pt_z point;
          mx = sin polar * cos azim;
          my = sin polar * sin azim;
          mz = cos polar
      in if (\<bar>mx\<bar> < 1 / 10 ^ 10 \<and> \<bar>p_A s\<bar> > 1 / 10 ^ 10) \<or>
            (\<bar>my\<bar> < 1 / 10 ^ 10 \<and> \<bar>p_B s\<bar> > 1 / 10 ^ 10) \<or>
            (\<bar>mz\<bar> < 1 / 10 ^ 10 \<and> \<bar>p_C s\<bar> > 1 / 10 ^ 10)
         then Some (0, points)
         else
           (case fdiv (- (p_A s * x0 + p_B s * y0 + p_C s * z0 + p_D s))
                      (p_A s * mx + p_B s * my + p_C s * mz) of
              None \<Rightarrow> None
            | Some l \<Rightarrow>
                let xcurr = x0 + l * mx;
                    ycurr = y0 + l * my;
                    zcurr = z0 + l * mz;
                    num = (if l > 0 then 1 else 0)
                in Some (num, points(0 := setCoords xcurr ycurr zcurr))))"

text \<open>
  The quantities the statements about \<open>Plane::intersection\<close> speak of: the direction
  cosines of the ray, the test of the degenerate (parallel) branch, and the parametric
  distance \<open>l = -(A*x0 + B*y0 + C*z0 + D) / (A*mx + B*my + C*mz)\<close>.
\<close>

definition direction_cosines :: "real \<Rightarrow> real \<Rightarrow> real \<times> real \<times> real" where
  "direction_cosines azim polar = (sin polar * cos azim, sin polar * sin azim, cos polar)"

definition denominator :: "'a Plane_scheme \<Rightarrow> real \<Rightarrow> real \<Rightarrow> real" where
  "denominator s azim polar =
     (case direction_cosines azim polar of
        (mx, my, mz) \<Rightarrow> p_A s * mx + p_B s * my + p_C s * mz)"

definition degenerate_branch :: "'a Plane_scheme \<Rightarrow> real \<Rightarrow> real \<Rightarrow> bool" where
  "degenerate_branch s azim polar =
     (case direction_cosines azim polar of
        (mx, my, mz) \<Rightarrow>
          \<bar>mx\<bar> < 1 / 10 ^ 10 \<and> \<bar>p_A s\<bar> > 1 / 10 ^ 10 \<or>
          \<bar>my\<bar> < 1 / 10 ^ 10 \<and> \<bar>p_B s\<bar> > 1 / 10 ^ 10 \<or>
          \<bar>mz\<bar> < 1 / 10 ^ 10 \<and> \<bar>p_C s\<bar> > 1 / 10 ^ 10)"

definition parametric_distance :: "'a Plane_scheme \<Rightarrow> Point \<Rightarrow> real \<Rightarrow> real \<Rightarrow> real" where
  "parametric_distance s point azim polar =
     - (p_A s * pt_x point + p_B s * pt_y point + p_C s * pt_z point + p_D s)
       / denominator s azim polar"

definition point_at :: "Point \<Rightarrow> real \<Rightarrow> real \<Rightarrow> real \<Rightarrow> Point" where
  "point_at point azim polar l =
     (case direction_cosines azim polar of
        (mx, my, mz) \<Rightarrow>
          setCoords (pt_x point + l * mx) (pt_y point + l * my) (pt_z point + l * mz))"

subsection \<open>Points on a Surface\<close>




subsection \<open>The cylinder parallel to the z-axis\<close>

text \<open>
  The members of \<open>ZCylinder\<close>. Of the Point \<open>_center\<close> only the x and the y
  coordinate are ever set or read.
\<close>

record ZCylinder = Surface +
  zc_A :: real
  zc_B :: real
  zc_C :: real
  zc_D :: real
  zc_E :: real
  zc_radius :: real
  zc_center_x :: real
  zc_center_y :: real

definition ZCylinder_ctor ::
  "real \<Rightarrow> real \<Rightarrow> real \<Rightarrow> c_int \<Rightarrow> string \<Rightarrow> globals \<Rightarrow> ZCylinder \<times> globals" where
  "ZCylinder_ctor x y radius id_arg name g =
     (let (s, g') = Surface_ctor id_arg name g
      in (Surface.extend (s\<lparr>s_surface_type := Some ZCYLINDER\<rparr>)
            (ZCylinder.fields 1 1 (- 2 * x) (- 2 * y) (x * x + y * y - radius * radius)
               radius x y),
          g'))"

definition getX0 :: "'a ZCylinder_scheme \<Rightarrow> real" where
  "getX0 s = zc_center_x s"

definition getY0 :: "'a ZCylinder_scheme \<Rightarrow> real" where
  "getY0 s = zc_center_y s"

text \<open>
  The directional check that \<open>ZCylinder::intersection\<close> repeats, with the same
  conditions, after each of the six places where it stores a point: it says whether
  \<open>num\<close> is incremented.
\<close>

definition in_direction :: "real \<Rightarrow> real \<Rightarrow> real \<Rightarrow> real \<Rightarrow> real \<Rightarrow> real \<Rightarrow> bool" where
  "in_direction azim polar y0 z0 ycurr zcurr =
     (if azim < pi \<and> ycurr > y0 then
        (if zcurr > z0 \<and> polar < pi / 2 then True
         else if zcurr < z0 \<and> polar > pi / 2 then True
         else if \<bar>zcurr - z0\<bar> < 1 / 10 ^ 10 \<and> \<bar>polar - pi / 2\<bar> < 1 / 10 ^ 10 then True
         else False)
      else if azim > pi \<and> ycurr < y0 then
        (if zcurr > z0 \<and> polar < pi / 2 then True
         else if zcurr < z0 \<and> polar > pi / 2 then True
         else if \<bar>zcurr - z0\<bar> < 1 / 10 ^ 10 \<and> \<bar>polar - pi / 2\<bar> < 1 / 10 ^ 10 then True
         else False)
      else False)"

text \<open>
  The block that follows the computation of \<open>xcurr\<close> and \<open>ycurr\<close> of a root: the
  z coordinate (\<open>t\<close> is the value of \<open>tan(M_PI_2 - polar)\<close>), the store into
  \<open>points[num]\<close>, and the directional check that may increment \<open>num\<close>.
\<close>

definition store_root ::
  "Point \<Rightarrow> real \<Rightarrow> real \<Rightarrow> real \<Rightarrow> real \<Rightarrow> real \<Rightarrow> nat \<times> (nat \<Rightarrow> Point)
     \<Rightarrow> nat \<times> (nat \<Rightarrow> Point)" where
  "store_root point azim polar t xcurr ycurr st =
     (case st of (num, points) \<Rightarrow>
        let x0 = pt_x point; y0 = pt_y point; z0 = pt_z point;
            zcurr = z0 + sqrt ((ycurr - y0)\<^sup>2 + (xcurr - x0)\<^sup>2) * t
        in (if in_direction azim polar y0 z0 ycurr zcurr then num + 1 else num,
            points(num := setCoords xcurr ycurr zcurr)))"

text \<open>
  What a call of \<open>ZCylinder::intersection\<close> comes back with: the returned count, or
  nothing defined, where control runs off the end of the function without a
  \<open>return\<close> statement.
\<close>

datatype count = Returned nat | No_return

definition vertical :: "real \<Rightarrow> bool" where
  "vertical azim \<longleftrightarrow> \<bar>azim - pi / 2\<bar> < 1 / 10 ^ 10 \<or> \<bar>azim - 3 * (pi / 2)\<bar> < 1 / 10 ^ 10"

definition ZCylinder_intersection ::
  "'a ZCylinder_scheme \<Rightarrow> Point \<Rightarrow> real \<Rightarrow> real \<Rightarrow> (nat \<Rightarrow> Point)
     \<Rightarrow> (count \<times> (nat \<Rightarrow> Point)) option" where
  "ZCylinder_intersection s point azim polar points =
     (let x0 = pt_x point; y0 = pt_y point in
      if vertical azim then
        (let a = zc_B s * zc_B s;
             b = zc_D s;
             c = zc_A s * x0 * x0 + zc_C s * x0 + zc_E s;
             discr = b * b - 4 * a * c
         in if discr < 0 then Some (Returned 0, points)
            else if discr = 0 then
              (case (fdiv (- b) (2 * a), ftan (pi / 2 - polar)) of
                 (Some ycurr, Some t) \<Rightarrow>
                   Some (No_return, snd (store_root point azim polar t x0 ycurr (0, points)))
               | _ \<Rightarrow> None)
            else
              (case (fdiv (- b + sqrt discr) (2 * a), fdiv (- b - sqrt discr) (2 * a),
                     ftan (pi / 2 - polar)) of
                 (Some ycurr1, Some ycurr2, Some t) \<Rightarrow>
                   (case store_root point azim polar t x0 ycurr2
                           (store_root point azim polar t x0 ycurr1 (0, points)) of
                      (num, points') \<Rightarrow> Some (Returned num, points'))
               | _ \<Rightarrow> None))
      else
        (case fdiv (sin azim) (cos azim) of
           None \<Rightarrow> None
         | Some m \<Rightarrow>
             let q = y0 - m * x0;
                 a = zc_A s + zc_B s * zc_B s * m * m;
                 b = 2 * zc_B s * m * q + zc_C s + zc_D s * m;
                 c = zc_B s * q * q + zc_D s * q + zc_E s;
                 discr = b * b - 4 * a * c
             in if discr < 0 then Some (Returned 0, points)
                else if discr = 0 then
                  (case (fdiv (- b) (2 * a), ftan (pi / 2 - polar)) of
                     (Some xcurr, Some t) \<Rightarrow>
                       (case store_root point azim polar t xcurr
                               (y0 + m * (pt_x (points 0) - x0)) (0, points) of
                          (num, points') \<Rightarrow> Some (Returned num, points'))
                   | _ \<Rightarrow> None)
                else
                  (case (fdiv (- b + sqrt discr) (2 * a), fdiv (- b - sqrt discr) (2 * a),
                         ftan (pi / 2 - polar)) of
                     (Some xcurr1, Some xcurr2, Some t) \<Rightarrow>
                       (case store_root point azim polar t xcurr2 (y0 + m * (xcurr2 - x0))
                               (store_root point azim polar t xcurr1
                                  (y0 + m * (xcurr1 - x0)) (0, points)) of
                          (num, points') \<Rightarrow> Some (Returned num, points'))
                   | _ \<Rightarrow> None)))"

text \<open>
  The quantities the statements about \<open>ZCylinder::intersection\<close> speak of: the
  discriminant of the quadratic of the branch taken, and the cylinder itself, the
  points at the distance of the radius from the axis through the center.
\<close>

definition discriminant :: "'a ZCylinder_scheme \<Rightarrow> Point \<Rightarrow> real \<Rightarrow> real" where
  "discriminant s point azim =
     (let x0 = pt_x point; y0 = pt_y point in
      if vertical azim then
        (let a = zc_B s * zc_B s;
             b = zc_D s;
             c = zc_A s * x0 * x0 + zc_C s * x0 + zc_E s
         in b * b - 4 * a * c)
      else
        (let m = sin azim / cos azim;
             q = y0 - m * x0;
             a = zc_A s + zc_B s * zc_B s * m * m;
             b = 2 * zc_B s * m * q + zc_C s + zc_D s * m;
             c = zc_B s * q * q + zc_D s * q + zc_E s
         in b * b - 4 * a * c))"

definition on_cylinder :: "'a ZCylinder_scheme \<Rightarrow> Point \<Rightarrow> bool" where
  "on_cylinder s p \<longleftrightarrow>
     (pt_x p - getX0 s)\<^sup>2 + (pt_y p - getY0 s)\<^sup>2 = (zc_radius s)\<^sup>2"

text \<open>
  The track that the code intersects with the cylinder, seen from the ray's origin
  \<open>point\<close>: in the plane the line \<open>x = x0\<close> when the azimuth counts as vertical
  and the line through the origin with the slope \<open>sin azim / cos azim\<close> otherwise;
  the height above the origin is the distance in the plane times the cotangent of the
  polar angle.
\<close>

definition on_track :: "Point \<Rightarrow> real \<Rightarrow> real \<Rightarrow> Point \<Rightarrow> bool" where
  "on_track point azim polar p \<longleftrightarrow>
     (if vertical azim then pt_x p = pt_x point
      else pt_y p = pt_y point + sin azim / cos azim * (pt_x p - pt_x point))
     \<and> pt_z p = pt_z point
           + sqrt ((pt_y p - pt_y point)\<^sup>2 + (pt_x p - pt_x point)\<^sup>2) * tan (pi / 2 - polar)"

text \<open>
  The point \<open>p\<close> lies ahead of the origin \<open>point\<close> of the ray: its displacement
  from the origin has a positive component along the direction \<open>(cos azim, sin azim)\<close>
  of the ray in the plane.
\<close>

definition ahead_of_origin :: "Point \<Rightarrow> real \<Rightarrow> Point \<Rightarrow> bool" where
  "ahead_of_origin point azim p \<longleftrightarrow>
     0 < (pt_x p - pt_x point) * cos azim + (pt_y p - pt_y point) * sin azim"



section \<open>Neighbor vectors hold no duplicates\<close>

lemma Surface_ctor_no_duplicates: "no_duplicates (fst (Surface_ctor id_arg name g))"
  by (simp add: Surface_ctor_def no_duplicates_def setName_def surf_id_def Let_def
      split: prod.splits)

lemma addNeighborCell_valid:
  assumes "halfspace = -1 \<or> halfspace = 1"
  shows "\<exists>s' h'. Surface_addNeighborCell halfspace cell (s, h) = Inr (s', h')
           \<and> s_neighbors s' =
               (s_neighbors s)(halfspace :=
                  (if cell \<notin> set (s_neighbors s halfspace)
                   then s_neighbors s halfspace @ [cell] else s_neighbors s halfspace))"
  using assms by (auto simp: Surface_addNeighborCell_def Let_def)

lemma addNeighborCell_no_duplicates:
  assumes "halfspace = -1 \<or> halfspace = 1" and "no_duplicates s"
    and "Surface_addNeighborCell halfspace cell (s, h) = Inr (s', h')"
  shows "no_duplicates s'"
proof -
  from addNeighborCell_valid [OF assms(1), of cell s h] assms(3)
  have eq: "s_neighbors s' =
      (s_neighbors s)(halfspace :=
         (if cell \<notin> set (s_neighbors s halfspace)
          then s_neighbors s halfspace @ [cell] else s_neighbors s halfspace))"
    by auto
  from assms(1) show ?thesis
  proof
    assume "halfspace = -1"
    with eq assms(2) show ?thesis by (auto simp: no_duplicates_def)
  next
    assume "halfspace = 1"
    with eq assms(2) show ?thesis by (auto simp: no_duplicates_def)
  qed
qed

lemma addNeighborCells_no_duplicates:
  assumes "\<forall>call \<in> set calls. fst call = -1 \<or> fst call = 1" and "no_duplicates s"
  shows "\<exists>s' h'. addNeighborCells calls (s, h) = Inr (s', h') \<and> no_duplicates s'"
  using assms
proof (induction calls arbitrary: s h)
  case Nil
  then show ?case by simp
next
  case (Cons call calls)
  obtain halfspace cell where call: "call = (halfspace, cell)" by (cases call)
  from Cons.prems(1) call have valid: "halfspace = -1 \<or> halfspace = 1" by simp
  from addNeighborCell_valid [OF valid, of cell s h]
  obtain s1 h1 where step: "Surface_addNeighborCell halfspace cell (s, h) = Inr (s1, h1)"
    by blast
  from addNeighborCell_no_duplicates [OF valid Cons.prems(2) step]
  have inv: "no_duplicates s1" .
  from Cons.prems(1) have rest: "\<forall>call \<in> set calls. fst call = -1 \<or> fst call = 1" by simp
  from Cons.IH [OF rest inv, of h1] call step show ?case by simp
qed

text \<open>
  Claim C5. Starting from a freshly constructed Surface, any sequence of
  \<open>addNeighborCell\<close> calls with halfspaces \<open>-1\<close> or \<open>+1\<close> succeeds and leaves both
  neighbor vectors free of duplicates; and adding a Cell that the vector of that
  halfspace already holds leaves the Surface as it was.
\<close>

theorem addNeighborCell_distinct_idempotent:
  "((\<forall>call \<in> set calls. fst call = -1 \<or> fst call = 1) \<longrightarrow>
      (\<exists>s' h'. addNeighborCells calls (fst (Surface_ctor id_arg name g), h) = Inr (s', h')
         \<and> distinct (s_neighbors s' (-1)) \<and> distinct (s_neighbors s' 1)))
   \<and> ((halfspace = -1 \<or> halfspace = 1) \<and> cell \<in> set (s_neighbors s halfspace) \<longrightarrow>
      (\<exists>h'. Surface_addNeighborCell halfspace cell (s, h0) = Inr (s, h')))"
proof (intro conjI impI)
  assume "\<forall>call \<in> set calls. fst call = -1 \<or> fst call = 1"
  from addNeighborCells_no_duplicates [OF this Surface_ctor_no_duplicates, of id_arg name g h]
  show "\<exists>s' h'. addNeighborCells calls (fst (Surface_ctor id_arg name g), h) = Inr (s', h')
         \<and> distinct (s_neighbors s' (-1)) \<and> distinct (s_neighbors s' 1)"
    by (simp add: no_duplicates_def)
next
  assume "(halfspace = -1 \<or> halfspace = 1) \<and> cell \<in> set (s_neighbors s halfspace)"
  then show "\<exists>h'. Surface_addNeighborCell halfspace cell (s, h0) = Inr (s, h')"
    by (auto simp: Surface_addNeighborCell_def Let_def)
qed

theorem addNeighborCell_distinct_idempotent_witness:
  "(\<exists>s' h'. addNeighborCells [(-1, 1), (1, 2), (-1, 1)]
        (fst (Surface_ctor 0 [] initial_globals), fresh_cells) = Inr (s', h')
      \<and> distinct (s_neighbors s' (-1)) \<and> distinct (s_neighbors s' 1))
   \<and> (\<exists>h'. Surface_addNeighborCell 1 2
        (fresh_surface\<lparr>s_neighbors := (\<lambda>_. [])(1 := [2])\<rparr>, fresh_cells)
        = Inr (fresh_surface\<lparr>s_neighbors := (\<lambda>_. [])(1 := [2])\<rparr>, h'))"
  using addNeighborCell_distinct_idempotent
    [where calls = "[(-1, 1), (1, 2), (-1, 1)]" and id_arg = 0 and name = "[]"
       and g = initial_globals and h = fresh_cells and halfspace = 1 and cell = 2
       and s = "fresh_surface\<lparr>s_neighbors := (\<lambda>_. [])(1 := [2])\<rparr>" and ?h0.0 = fresh_cells]
  by simp

section \<open>The invalid halfspace\<close>

text \<open>
  The one error that \<open>Surface.cpp\<close> raises. \<open>Surface::addNeighborCell\<close> fails
  exactly when the halfspace is neither \<open>-1\<close> nor \<open>+1\<close>; the failure is the
  diagnostic with the id of the offending Cell, the id of the Surface and the halfspace,
  raised before the neighbor vectors are touched (no state comes back); with a valid
  halfspace the call always succeeds.
\<close>

theorem addNeighborCell_invalid_halfspace:
  "(halfspace \<noteq> -1 \<and> halfspace \<noteq> 1 \<longrightarrow>
      Surface_addNeighborCell halfspace cell (s, h)
        = Inl (InvalidHalfspace (c_id (h cell)) (sint (getId s)) halfspace))
   \<and> (halfspace = -1 \<or> halfspace = 1 \<longrightarrow>
      (\<exists>st'. Surface_addNeighborCell halfspace cell (s, h) = Inr st'))"
  by (auto simp: Surface_addNeighborCell_def getId_def Let_def)

theorem addNeighborCell_invalid_halfspace_witness:
  "Surface_addNeighborCell 2 7 (fresh_surface, fresh_cells)
     = Inl (InvalidHalfspace 7 10000 2)
   \<and> (\<exists>st'. Surface_addNeighborCell (-1) 7 (fresh_surface, fresh_cells) = Inr st')"
proof -
  have ids: "c_id (fresh_cells 7) = 7" "sint (getId fresh_surface) = 10000"
    by (simp_all add: fresh_cells_def fresh_surface_def getId_def Surface_ctor_def
        surf_id_def initial_globals_def setName_def Let_def)
  from addNeighborCell_invalid_halfspace [of 2 7 fresh_surface fresh_cells]
    addNeighborCell_invalid_halfspace [of "-1" 7 fresh_surface fresh_cells] ids
  show ?thesis by simp
qed

section \<open>Propagation of adjacency across a Surface\<close>








section \<open>Auto-assigned ids\<close>

lemma Surface_ctor_auto:
  "Surface_ctor 0 name g = (s, g1) \<Longrightarrow> getId s = auto_id g \<and> auto_id g1 = auto_id g + 1"
  by (auto simp: Surface_ctor_def surf_id_def setName_def getId_def Let_def)

lemma auto_assign_ids:
  "fst (auto_assign names g) = map (\<lambda>k. auto_id g + word_of_nat k) [0..<length names]"
proof (induction names arbitrary: g)
  case Nil
  then show ?case by simp
next
  case (Cons name names)
  obtain s g1 where c: "Surface_ctor 0 name g = (s, g1)"
    by (cases "Surface_ctor 0 name g")
  from Surface_ctor_auto [OF c]
  have s: "getId s = auto_id g" and g1: "auto_id g1 = auto_id g + 1"
    by simp_all
  have upt: "[0..<length (name # names)] = 0 # map Suc [0..<length names]"
    by (simp add: upt_conv_Cons map_Suc_upt del: upt_Suc)
  show ?case
    unfolding upt
    using Cons.IH [of g1] c s g1
    by (simp add: split_beta Let_def comp_def add.assoc)
qed

lemma sint_auto:
  assumes "k < 2147473648"
  shows "sint (10000 + word_of_nat k :: c_int) = 10000 + int k"
proof -
  have "(10000 + word_of_nat k :: c_int) = word_of_int (10000 + int k)" by simp
  then have "sint (10000 + word_of_nat k :: c_int) = signed_take_bit 31 (10000 + int k)"
    by (simp only: sint_sbintrunc') simp
  also have "\<dots> = 10000 + int k"
    using assms by (intro signed_take_bit_int_eq_self) simp_all
  finally show ?thesis .
qed

lemma auto_assign_after_reset:
  assumes "10000 + length names \<le> 2147483647"
  shows "map sint (fst (auto_assign names (reset_surf_id g)))
           = map (\<lambda>k. 10000 + int k) [0..<length names]"
proof -
  have "sint (10000 + word_of_nat k :: c_int) = 10000 + int k" if "k < length names" for k
    using that assms by (intro sint_auto) simp
  then show ?thesis
    by (simp add: auto_assign_ids reset_surf_id_def)
qed

lemma consecutive_increasing: "sorted_wrt (<) (map (\<lambda>k. 10000 + int k) [0..<n])"
  by (simp add: sorted_wrt_iff_nth_less)

text \<open>
  Claim C7, as amended. After \<open>reset_surf_id\<close>, the ids of \<open>N\<close> consecutive
  auto-assignments are \<open>10000, 10001, \<dots>, 10000 + N - 1\<close>, strictly increasing and
  without duplicates, as long as the counter stays within the 32-bit \<open>int\<close>
  (\<open>10000 + N \<le> 2147483647\<close>); and a Surface constructed with a nonzero id keeps that
  id and leaves the counter alone.
\<close>

theorem auto_ids_consecutive:
  "(10000 + length names \<le> 2147483647 \<longrightarrow>
      map sint (fst (auto_assign names (reset_surf_id g)))
        = map (\<lambda>k. 10000 + int k) [0..<length names]
      \<and> sorted_wrt (<) (map sint (fst (auto_assign names (reset_surf_id g))))
      \<and> distinct (fst (auto_assign names (reset_surf_id g))))
   \<and> (id_arg \<noteq> 0 \<longrightarrow>
      getId (fst (Surface_ctor id_arg name g0)) = id_arg
      \<and> auto_id (snd (Surface_ctor id_arg name g0)) = auto_id g0)"
proof (intro conjI impI)
  assume bound: "10000 + length names \<le> 2147483647"
  from auto_assign_after_reset [OF bound, of g]
  show eq: "map sint (fst (auto_assign names (reset_surf_id g)))
        = map (\<lambda>k. 10000 + int k) [0..<length names]" .
  from eq consecutive_increasing [of "length names"]
  show inc: "sorted_wrt (<) (map sint (fst (auto_assign names (reset_surf_id g))))"
    by simp
  from inc have "distinct (map sint (fst (auto_assign names (reset_surf_id g))))"
    by (simp add: strict_sorted_iff)
  then show "distinct (fst (auto_assign names (reset_surf_id g)))"
    by (simp add: distinct_map)
next
  assume "id_arg \<noteq> 0"
  then show "getId (fst (Surface_ctor id_arg name g0)) = id_arg"
    and "auto_id (snd (Surface_ctor id_arg name g0)) = auto_id g0"
    by (simp_all add: Surface_ctor_def setName_def getId_def Let_def)
qed

theorem auto_ids_consecutive_witness:
  "map sint (fst (auto_assign [[], ''a'', ''b''] (reset_surf_id initial_globals)))
     = [10000, 10001, 10002]
   \<and> getId (fst (Surface_ctor 7 ''x'' initial_globals)) = 7
   \<and> auto_id (snd (Surface_ctor 7 ''x'' initial_globals)) = auto_id initial_globals"
  using auto_ids_consecutive
    [where names = "[[], ''a'', ''b'']" and g = initial_globals and id_arg = 7
       and name = "''x''" and ?g0.0 = initial_globals]
  by (simp add: upt_rec)

text \<open>
  Claim C7 as stated (for every \<open>N\<close>) fails where the 32-bit counter wraps: of
  2147473649 consecutive auto-assignments after a reset, the one before the last gets
  the largest \<open>int\<close> and the last one the smallest.
\<close>

theorem auto_ids_wrap_around:
  "sint (fst (auto_assign (replicate 2147473649 []) (reset_surf_id initial_globals))
           ! 2147473647) = 2147483647
   \<and> sint (fst (auto_assign (replicate 2147473649 []) (reset_surf_id initial_globals))
           ! 2147473648) = - 2147483648"
proof -
  define names :: "string list" where "names = replicate 2147473649 []"
  have len: "length names = 2147473649"
    unfolding names_def by (rule length_replicate)
  have nth: "fst (auto_assign names (reset_surf_id initial_globals)) ! k
      = 10000 + word_of_nat k" if "k < length names" for k
    using that by (simp add: auto_assign_ids reset_surf_id_def del: upt_Suc)
  have "sint (fst (auto_assign names (reset_surf_id initial_globals)) ! 2147473647)
      = 2147483647"
    by (subst nth) (simp_all add: len)
  moreover
  have "sint (fst (auto_assign names (reset_surf_id initial_globals)) ! 2147473648)
      = - 2147483648"
    by (subst nth) (simp_all add: len)
  ultimately show ?thesis
    unfolding names_def by simp
qed

section \<open>Names of the axis-aligned planes\<close>

text \<open>
  Claim C9. Whatever name an \<open>XPlane\<close> or a \<open>YPlane\<close> is constructed with,
  \<open>getName\<close> returns the default name of the \<open>Plane\<close> constructor afterwards (the
  empty string when that is the default); a \<open>ZPlane\<close> keeps the name it was
  constructed with.
\<close>

theorem axis_plane_names:
  "getName (fst (XPlane_ctor default_name x id_arg name g)) = default_name
   \<and> getName (fst (YPlane_ctor default_name y id_arg name g)) = default_name
   \<and> getName (fst (XPlane_ctor [] x id_arg name g)) = []
   \<and> getName (fst (YPlane_ctor [] y id_arg name g)) = []
   \<and> getName (fst (ZPlane_ctor z id_arg name g)) = name"
  by (simp add: XPlane_ctor_def YPlane_ctor_def ZPlane_ctor_def Plane_ctor_def
      Surface_ctor_def setName_def getName_def Surface.defs Plane.defs Let_def
      split: prod.splits)

section \<open>Intersection of a ray with a plane\<close>

lemma Plane_intersection_degenerate:
  assumes "degenerate_branch s azim polar"
  shows "Plane_intersection s point azim polar points = Some (0, points)"
  using assms
  by (simp add: Plane_intersection_def degenerate_branch_def direction_cosines_def Let_def)

lemma Plane_intersection_general:
  assumes "\<not> degenerate_branch s azim polar" and "denominator s azim polar \<noteq> 0"
  shows "Plane_intersection s point azim polar points
     = Some (if parametric_distance s point azim polar > 0 then 1 else 0,
             points(0 := point_at point azim polar (parametric_distance s point azim polar)))"
  using assms
  by (auto simp: Plane_intersection_def degenerate_branch_def direction_cosines_def
      denominator_def parametric_distance_def point_at_def fdiv_def Let_def)

text \<open>
  Claim C3. In the non-degenerate branch (with a denominator that is not zero, so that
  the parametric distance \<open>l\<close> is a number) \<open>Plane::intersection\<close> returns 1 exactly
  when \<open>l > 0\<close> and 0 when \<open>l \<le> 0\<close>.
\<close>

theorem Plane_intersection_ahead_only:
  assumes "\<not> degenerate_branch s azim polar" and "denominator s azim polar \<noteq> 0"
  shows "map_option fst (Plane_intersection s point azim polar points)
     = Some (if parametric_distance s point azim polar > 0 then 1 else 0)"
  by (simp add: Plane_intersection_general [OF assms])

theorem Plane_intersection_ahead_only_witness:
  "map_option fst (Plane_intersection (fst (Plane_ctor 1 0 0 0 0 [] initial_globals))
       (setCoords (-1) 0 0) 0 (pi / 2) (\<lambda>_. setCoords 9 9 9)) = Some 1
   \<and> map_option fst (Plane_intersection (fst (Plane_ctor 1 0 0 0 0 [] initial_globals))
       (setCoords 1 0 0) 0 (pi / 2) (\<lambda>_. setCoords 9 9 9)) = Some 0"
proof -
  let ?s = "fst (Plane_ctor 1 0 0 0 0 [] initial_globals)"
  have coeffs: "p_A ?s = 1" "p_B ?s = 0" "p_C ?s = 0" "p_D ?s = 0"
    by (simp_all add: Plane_ctor_def Surface_ctor_def surf_id_def setName_def
        Surface.defs Plane.defs Let_def)
  have nd: "\<not> degenerate_branch ?s 0 (pi / 2)"
    by (simp add: degenerate_branch_def direction_cosines_def coeffs)
  have den: "denominator ?s 0 (pi / 2) = 1"
    by (simp add: denominator_def direction_cosines_def coeffs)
  then have den0: "denominator ?s 0 (pi / 2) \<noteq> 0" by simp
  have l: "parametric_distance ?s (setCoords (-1) 0 0) 0 (pi / 2) = 1"
    "parametric_distance ?s (setCoords 1 0 0) 0 (pi / 2) = -1"
    by (simp_all add: parametric_distance_def den coeffs setCoords_def)
  from Plane_intersection_ahead_only [OF nd den0, of "setCoords (-1) 0 0"]
    Plane_intersection_ahead_only [OF nd den0, of "setCoords 1 0 0"]
  show ?thesis by (simp add: l)
qed

text \<open>
  Claim C10. In the non-degenerate branch \<open>Plane::intersection\<close> stores the computed
  point in \<open>points[0]\<close> whatever the sign of \<open>l\<close>: the buffer afterwards is the
  buffer before with slot 0 overwritten. The witness is a ray that points away from
  the plane: the call returns 0 and slot 0 has changed.
\<close>

theorem Plane_intersection_writes_buffer:
  assumes "\<not> degenerate_branch s azim polar" and "denominator s azim polar \<noteq> 0"
  shows "map_option snd (Plane_intersection s point azim polar points)
     = Some (points(0 := point_at point azim polar (parametric_distance s point azim polar)))"
  by (simp add: Plane_intersection_general [OF assms])

theorem Plane_intersection_writes_buffer_witness:
  "map_option snd (Plane_intersection (fst (Plane_ctor 1 0 0 0 0 [] initial_globals))
       (setCoords 1 0 0) 0 (pi / 2) (\<lambda>_. setCoords 9 9 9))
     = Some ((\<lambda>_. setCoords 9 9 9)(0 := setCoords 0 0 0))
   \<and> map_option fst (Plane_intersection (fst (Plane_ctor 1 0 0 0 0 [] initial_globals))
       (setCoords 1 0 0) 0 (pi / 2) (\<lambda>_. setCoords 9 9 9)) = Some 0
   \<and> ((\<lambda>_. setCoords 9 9 9)(0 := setCoords 0 0 0)) 0 \<noteq> (\<lambda>_. setCoords 9 9 9) (0 :: nat)"
proof -
  let ?s = "fst (Plane_ctor 1 0 0 0 0 [] initial_globals)"
  have coeffs: "p_A ?s = 1" "p_B ?s = 0" "p_C ?s = 0" "p_D ?s = 0"
    by (simp_all add: Plane_ctor_def Surface_ctor_def surf_id_def setName_def
        Surface.defs Plane.defs Let_def)
  have nd: "\<not> degenerate_branch ?s 0 (pi / 2)"
    by (simp add: degenerate_branch_def direction_cosines_def coeffs)
  have den: "denominator ?s 0 (pi / 2) = 1"
    by (simp add: denominator_def direction_cosines_def coeffs)
  then have den0: "denominator ?s 0 (pi / 2) \<noteq> 0" by simp
  have l: "parametric_distance ?s (setCoords 1 0 0) 0 (pi / 2) = -1"
    by (simp add: parametric_distance_def den coeffs setCoords_def)
  have p: "point_at (setCoords 1 0 0) 0 (pi / 2) (-1) = setCoords 0 0 0"
    by (simp add: point_at_def direction_cosines_def setCoords_def)
  have count: "map_option fst (Plane_intersection ?s (setCoords 1 0 0) 0 (pi / 2)
      (\<lambda>_. setCoords 9 9 9)) = Some 0"
    by (simp add: Plane_intersection_general [OF nd den0] l)
  from Plane_intersection_writes_buffer [OF nd den0, of "setCoords 1 0 0" "\<lambda>_. setCoords 9 9 9"]
  show ?thesis by (simp add: l p count) (simp add: setCoords_def)
qed

section \<open>Axis-aligned planes\<close>

lemmas ctor_defs = XPlane_ctor_def YPlane_ctor_def ZPlane_ctor_def Plane_ctor_def
  Surface_ctor_def surf_id_def setName_def
  Surface.defs Plane.defs XPlane.defs YPlane.defs ZPlane.defs

lemma XPlane_coeffs:
  "p_A (fst (XPlane_ctor dn x id_arg name g)) = 1"
  "p_B (fst (XPlane_ctor dn x id_arg name g)) = 0"
  "p_C (fst (XPlane_ctor dn x id_arg name g)) = 0"
  "p_D (fst (XPlane_ctor dn x id_arg name g)) = - x"
  by (simp_all add: ctor_defs Let_def split: prod.splits)

lemma YPlane_coeffs:
  "p_A (fst (YPlane_ctor dn y id_arg name g)) = 0"
  "p_B (fst (YPlane_ctor dn y id_arg name g)) = 1"
  "p_C (fst (YPlane_ctor dn y id_arg name g)) = 0"
  "p_D (fst (YPlane_ctor dn y id_arg name g)) = - y"
  by (simp_all add: ctor_defs Let_def split: prod.splits)

lemma ZPlane_coeffs:
  "p_A (fst (ZPlane_ctor z id_arg name g)) = 0"
  "p_B (fst (ZPlane_ctor z id_arg name g)) = 0"
  "p_C (fst (ZPlane_ctor z id_arg name g)) = 1"
  "p_D (fst (ZPlane_ctor z id_arg name g)) = - z"
  by (simp_all add: ctor_defs Let_def split: prod.splits)

text \<open>
  A plane whose normal is a coordinate axis: \<open>m\<close> is the direction cosine along that
  axis, \<open>d\<close> the position of the plane and \<open>p0\<close> the coordinate of the origin.
\<close>

lemma axis_count:
  assumes deg: "degenerate_branch s azim polar \<longleftrightarrow> \<bar>m\<bar> < 1 / 10 ^ 10"
    and den: "denominator s azim polar = m"
    and l: "parametric_distance s point azim polar = (d - p0) / m"
  shows "(\<bar>m\<bar> < 1 / 10 ^ 10 \<longrightarrow>
            Plane_intersection s point azim polar points = Some (0, points))
       \<and> (\<bar>m\<bar> \<ge> 1 / 10 ^ 10 \<longrightarrow>
            map_option fst (Plane_intersection s point azim polar points)
              = Some (if (d - p0) / m > 0 then 1 else 0))"
proof (intro conjI impI)
  assume "\<bar>m\<bar> < 1 / 10 ^ 10"
  with deg have "degenerate_branch s azim polar" by simp
  then show "Plane_intersection s point azim polar points = Some (0, points)"
    by (rule Plane_intersection_degenerate)
next
  assume m: "\<bar>m\<bar> \<ge> 1 / 10 ^ 10"
  with deg have nd: "\<not> degenerate_branch s azim polar" by simp
  from m have "m \<noteq> 0" by auto
  with den have "denominator s azim polar \<noteq> 0" by simp
  from Plane_intersection_general [OF nd this, of point points]
  show "map_option fst (Plane_intersection s point azim polar points)
          = Some (if (d - p0) / m > 0 then 1 else 0)"
    by (simp add: l)
qed

lemma XPlane_count:
  "(\<bar>sin polar * cos azim\<bar> < 1 / 10 ^ 10 \<longrightarrow>
      Plane_intersection (fst (XPlane_ctor dn x id_arg name g)) point azim polar points
        = Some (0, points))
   \<and> (\<bar>sin polar * cos azim\<bar> \<ge> 1 / 10 ^ 10 \<longrightarrow>
      map_option fst
        (Plane_intersection (fst (XPlane_ctor dn x id_arg name g)) point azim polar points)
        = Some (if (x - pt_x point) / (sin polar * cos azim) > 0 then 1 else 0))"
proof (rule axis_count)
  let ?s = "fst (XPlane_ctor dn x id_arg name g)"
  show "degenerate_branch ?s azim polar \<longleftrightarrow> \<bar>sin polar * cos azim\<bar> < 1 / 10 ^ 10"
    by (simp add: degenerate_branch_def direction_cosines_def XPlane_coeffs)
  show den: "denominator ?s azim polar = sin polar * cos azim"
    by (simp add: denominator_def direction_cosines_def XPlane_coeffs)
  show "parametric_distance ?s point azim polar = (x - pt_x point) / (sin polar * cos azim)"
    by (simp add: parametric_distance_def den XPlane_coeffs)
qed

lemma YPlane_count:
  "(\<bar>sin polar * sin azim\<bar> < 1 / 10 ^ 10 \<longrightarrow>
      Plane_intersection (fst (YPlane_ctor dn y id_arg name g)) point azim polar points
        = Some (0, points))
   \<and> (\<bar>sin polar * sin azim\<bar> \<ge> 1 / 10 ^ 10 \<longrightarrow>
      map_option fst
        (Plane_intersection (fst (YPlane_ctor dn y id_arg name g)) point azim polar points)
        = Some (if (y - pt_y point) / (sin polar * sin azim) > 0 then 1 else 0))"
proof (rule axis_count)
  let ?s = "fst (YPlane_ctor dn y id_arg name g)"
  show "degenerate_branch ?s azim polar \<longleftrightarrow> \<bar>sin polar * sin azim\<bar> < 1 / 10 ^ 10"
    by (simp add: degenerate_branch_def direction_cosines_def YPlane_coeffs)
  show den: "denominator ?s azim polar = sin polar * sin azim"
    by (simp add: denominator_def direction_cosines_def YPlane_coeffs)
  show "parametric_distance ?s point azim polar = (y - pt_y point) / (sin polar * sin azim)"
    by (simp add: parametric_distance_def den YPlane_coeffs)
qed

lemma ZPlane_count:
  "(\<bar>cos polar\<bar> < 1 / 10 ^ 10 \<longrightarrow>
      Plane_intersection (fst (ZPlane_ctor z id_arg name g)) point azim polar points
        = Some (0, points))
   \<and> (\<bar>cos polar\<bar> \<ge> 1 / 10 ^ 10 \<longrightarrow>
      map_option fst
        (Plane_intersection (fst (ZPlane_ctor z id_arg name g)) point azim polar points)
        = Some (if (z - pt_z point) / cos polar > 0 then 1 else 0))"
proof (rule axis_count)
  let ?s = "fst (ZPlane_ctor z id_arg name g)"
  show "degenerate_branch ?s azim polar \<longleftrightarrow> \<bar>cos polar\<bar> < 1 / 10 ^ 10"
    by (simp add: degenerate_branch_def direction_cosines_def ZPlane_coeffs)
  show den: "denominator ?s azim polar = cos polar"
    by (simp add: denominator_def direction_cosines_def ZPlane_coeffs)
  show "parametric_distance ?s point azim polar = (z - pt_z point) / cos polar"
    by (simp add: parametric_distance_def den ZPlane_coeffs)
qed

text \<open>
  Claim C2, as amended. For an \<open>XPlane\<close>, a \<open>YPlane\<close> and a \<open>ZPlane\<close>,
  \<open>Plane::intersection\<close> returns 0 and leaves the buffer alone when the ray is
  parallel to the plane, that is when the direction cosine along the axis of the plane
  is below \<open>1e-10\<close> in magnitude; otherwise it returns 1 when the plane is strictly
  ahead of the origin along the ray (the parametric distance is positive) and 0 when
  it is at or behind the origin.
\<close>

theorem axis_aligned_intersection:
  "((\<bar>sin polar * cos azim\<bar> < 1 / 10 ^ 10 \<longrightarrow>
      Plane_intersection (fst (XPlane_ctor dn x id_arg name g)) point azim polar points
        = Some (0, points))
   \<and> (\<bar>sin polar * cos azim\<bar> \<ge> 1 / 10 ^ 10 \<longrightarrow>
      map_option fst
        (Plane_intersection (fst (XPlane_ctor dn x id_arg name g)) point azim polar points)
        = Some (if (x - pt_x point) / (sin polar * cos azim) > 0 then 1 else 0)))
   \<and> ((\<bar>sin polar * sin azim\<bar> < 1 / 10 ^ 10 \<longrightarrow>
      Plane_intersection (fst (YPlane_ctor dn y id_arg name g)) point azim polar points
        = Some (0, points))
   \<and> (\<bar>sin polar * sin azim\<bar> \<ge> 1 / 10 ^ 10 \<longrightarrow>
      map_option fst
        (Plane_intersection (fst (YPlane_ctor dn y id_arg name g)) point azim polar points)
        = Some (if (y - pt_y point) / (sin polar * sin azim) > 0 then 1 else 0)))
   \<and> ((\<bar>cos polar\<bar> < 1 / 10 ^ 10 \<longrightarrow>
      Plane_intersection (fst (ZPlane_ctor z id_arg name g)) point azim polar points
        = Some (0, points))
   \<and> (\<bar>cos polar\<bar> \<ge> 1 / 10 ^ 10 \<longrightarrow>
      map_option fst
        (Plane_intersection (fst (ZPlane_ctor z id_arg name g)) point azim polar points)
        = Some (if (z - pt_z point) / cos polar > 0 then 1 else 0)))"
  using XPlane_count [where polar = polar and azim = azim and dn = dn and x = x
      and id_arg = id_arg and name = name and g = g and point = point and points = points]
    YPlane_count [where polar = polar and azim = azim and dn = dn and y = y
      and id_arg = id_arg and name = name and g = g and point = point and points = points]
    ZPlane_count [where polar = polar and azim = azim and z = z
      and id_arg = id_arg and name = name and g = g and point = point and points = points]
  by blast

theorem axis_aligned_intersection_witness:
  "map_option fst (Plane_intersection (fst (XPlane_ctor [] 0 0 [] initial_globals))
       (setCoords (-1) 0 0) 0 (pi / 2) (\<lambda>_. setCoords 9 9 9)) = Some 1
   \<and> Plane_intersection (fst (XPlane_ctor [] 0 0 [] initial_globals))
       (setCoords 0 (-1) 0) (pi / 2) (pi / 2) (\<lambda>_. setCoords 9 9 9)
       = Some (0, \<lambda>_. setCoords 9 9 9)
   \<and> map_option fst (Plane_intersection (fst (YPlane_ctor [] 0 0 [] initial_globals))
       (setCoords 0 (-1) 0) (pi / 2) (pi / 2) (\<lambda>_. setCoords 9 9 9)) = Some 1
   \<and> Plane_intersection (fst (YPlane_ctor [] 0 0 [] initial_globals))
       (setCoords (-1) 0 0) 0 (pi / 2) (\<lambda>_. setCoords 9 9 9)
       = Some (0, \<lambda>_. setCoords 9 9 9)
   \<and> map_option fst (Plane_intersection (fst (ZPlane_ctor 0 0 [] initial_globals))
       (setCoords 0 0 (-1)) 0 0 (\<lambda>_. setCoords 9 9 9)) = Some 1
   \<and> Plane_intersection (fst (ZPlane_ctor 0 0 [] initial_globals))
       (setCoords (-1) 0 0) 0 (pi / 2) (\<lambda>_. setCoords 9 9 9)
       = Some (0, \<lambda>_. setCoords 9 9 9)"
  using axis_aligned_intersection
    [where azim = 0 and polar = "pi / 2" and point = "setCoords (-1) 0 0"
       and dn = "[]" and x = 0 and y = 0 and z = 0 and id_arg = 0 and name = "[]"
       and g = initial_globals and points = "\<lambda>_. setCoords 9 9 9"]
    axis_aligned_intersection
    [where azim = "pi / 2" and polar = "pi / 2" and point = "setCoords 0 (-1) 0"
       and dn = "[]" and x = 0 and y = 0 and z = 0 and id_arg = 0 and name = "[]"
       and g = initial_globals and points = "\<lambda>_. setCoords 9 9 9"]
    axis_aligned_intersection
    [where azim = 0 and polar = 0 and point = "setCoords 0 0 (-1)"
       and dn = "[]" and x = 0 and y = 0 and z = 0 and id_arg = 0 and name = "[]"
       and g = initial_globals and points = "\<lambda>_. setCoords 9 9 9"]
  by (simp add: setCoords_def)

text \<open>
  Claim C2 as stated fails: a ray that is not parallel to the plane gets 0 when the
  plane is behind it. The \<open>XPlane\<close> at \<open>x = 0\<close>, the origin \<open>(1, 0, 0)\<close> and the
  direction \<open>(1, 0, 0)\<close>, straight along the normal of the plane, away from it.
\<close>

theorem axis_aligned_behind_origin:
  "direction_cosines 0 (pi / 2) = (1, 0, 0)
   \<and> Plane_intersection (fst (XPlane_ctor [] 0 0 [] initial_globals))
       (setCoords 1 0 0) 0 (pi / 2) (\<lambda>_. setCoords 9 9 9)
       = Some (0, (\<lambda>_. setCoords 9 9 9)(0 := setCoords 0 0 0))"
  by (simp add: direction_cosines_def Plane_intersection_def XPlane_coeffs fdiv_def
      setCoords_def Let_def)

section \<open>Classification of points near a plane\<close>





section \<open>Intersection of a ray with a cylinder\<close>

lemma ZCylinder_coeffs:
  "zc_A (fst (ZCylinder_ctor x y r id_arg name g)) = 1"
  "zc_B (fst (ZCylinder_ctor x y r id_arg name g)) = 1"
  "zc_C (fst (ZCylinder_ctor x y r id_arg name g)) = - 2 * x"
  "zc_D (fst (ZCylinder_ctor x y r id_arg name g)) = - 2 * y"
  "zc_E (fst (ZCylinder_ctor x y r id_arg name g)) = x * x + y * y - r * r"
  "zc_radius (fst (ZCylinder_ctor x y r id_arg name g)) = r"
  "getX0 (fst (ZCylinder_ctor x y r id_arg name g)) = x"
  "getY0 (fst (ZCylinder_ctor x y r id_arg name g)) = y"
  by (simp_all add: ZCylinder_ctor_def Surface_ctor_def surf_id_def setName_def getX0_def
      getY0_def Surface.defs ZCylinder.defs Let_def split: prod.splits)

lemma quadratic_root:
  fixes a b c x :: real
  assumes "a \<noteq> 0" and "0 \<le> b * b - 4 * a * c"
    and "x = (- b + sqrt (b * b - 4 * a * c)) / (2 * a) \<or> x = (- b - sqrt (b * b - 4 * a * c)) / (2 * a)"
  shows "a * x * x + b * x + c = 0"
proof -
  define sd where "sd = sqrt (b * b - 4 * a * c)"
  have sd2: "sd * sd = b * b - 4 * a * c"
    unfolding sd_def using assms(2) by simp
  from assms(3) have "2 * a * x + b = sd \<or> 2 * a * x + b = - sd"
    using assms(1) by (auto simp: sd_def field_simps)
  then have "(2 * a * x + b) * (2 * a * x + b) = sd * sd" by auto
  with sd2 have "4 * a * (a * x * x + b * x + c) = 0" by (simp add: algebra_simps)
  with assms(1) show ?thesis by simp
qed

lemma store_root_eq:
  "store_root point azim polar t xcurr ycurr (num, points) =
     (if in_direction azim polar (pt_y point) (pt_z point) ycurr
           (pt_z point + sqrt ((ycurr - pt_y point)\<^sup>2 + (xcurr - pt_x point)\<^sup>2) * t)
      then num + 1 else num,
      points(num := setCoords xcurr ycurr
           (pt_z point + sqrt ((ycurr - pt_y point)\<^sup>2 + (xcurr - pt_x point)\<^sup>2) * t)))"
  by (simp add: store_root_def Let_def)

lemma cos_zero_cases:
  assumes "0 \<le> azim" "azim < 2 * pi" "cos azim = 0"
  shows "azim = pi / 2 \<or> azim = 3 * (pi / 2)"
proof -
  from assms(3) obtain k :: int where k: "azim = real_of_int k * pi + pi / 2"
    by (auto simp: cos_zero_iff_int2)
  have "(real_of_int k + 1 / 2) * pi = azim" by (simp add: k algebra_simps)
  with assms(1,2) have "0 \<le> (real_of_int k + 1 / 2) * pi" "(real_of_int k + 1 / 2) * pi < 2 * pi"
    by simp_all
  then have "0 \<le> real_of_int k + 1 / 2" "real_of_int k + 1 / 2 < 2"
    using pi_gt_zero by (simp_all add: zero_le_mult_iff not_le)
  then have "k = 0 \<or> k = 1" by linarith
  then show ?thesis by (auto simp: k)
qed

lemma not_vertical_cos:
  assumes "0 \<le> azim" "azim < 2 * pi" "\<not> vertical azim"
  shows "cos azim \<noteq> 0"
proof
  assume "cos azim = 0"
  from cos_zero_cases [OF assms(1,2) this] have "vertical azim"
    by (auto simp: vertical_def)
  with assms(3) show False by simp
qed

lemma ftan_polar:
  assumes "0 < polar" "polar < pi"
  shows "ftan (pi / 2 - polar) = Some (tan (pi / 2 - polar))"
proof -
  have "cos (pi / 2 - polar) = sin polar" by (simp add: cos_diff)
  moreover from assms have "0 < sin polar" by (rule sin_gt_zero)
  ultimately show ?thesis by (simp add: ftan_def)
qed

lemma ZC_no_root:
  assumes "0 \<le> azim" "azim < 2 * pi" "discriminant s point azim < 0"
  shows "ZCylinder_intersection s point azim polar points = Some (Returned 0, points)"
proof (cases "vertical azim")
  case True
  with assms(3) show ?thesis
    by (simp add: ZCylinder_intersection_def discriminant_def Let_def)
next
  case False
  from not_vertical_cos [OF assms(1,2) False] have "cos azim \<noteq> 0" .
  with False assms(3) show ?thesis
    by (simp add: ZCylinder_intersection_def discriminant_def fdiv_def Let_def)
qed

lemma ZC_vertical_two:
  assumes s: "s = fst (ZCylinder_ctor xc yc r id_arg name g)"
    and v: "vertical azim" and d: "0 < discriminant s point azim"
    and p: "0 < polar" "polar < pi"
  shows "ZCylinder_intersection s point azim polar points =
     (case store_root point azim polar (tan (pi / 2 - polar)) (pt_x point)
             ((2 * yc - sqrt (discriminant s point azim)) / 2)
             (store_root point azim polar (tan (pi / 2 - polar)) (pt_x point)
                ((2 * yc + sqrt (discriminant s point azim)) / 2) (0, points)) of
        (num, points') \<Rightarrow> Some (Returned num, points'))"
proof -
  have "ZCylinder_intersection s point azim polar points =
     (case (fdiv (2 * yc + sqrt (discriminant s point azim)) 2,
            fdiv (2 * yc - sqrt (discriminant s point azim)) 2,
            ftan (pi / 2 - polar)) of
        (Some ycurr1, Some ycurr2, Some t) \<Rightarrow>
          (case store_root point azim polar t (pt_x point) ycurr2
                  (store_root point azim polar t (pt_x point) ycurr1 (0, points)) of
             (num, points') \<Rightarrow> Some (Returned num, points'))
      | _ \<Rightarrow> None)"
    using v d unfolding s
    by (simp add: ZCylinder_intersection_def discriminant_def ZCylinder_coeffs Let_def)
  then show ?thesis
    by (simp add: fdiv_def ftan_polar [OF p])
qed

lemma ZC_general_two:
  assumes s: "s = fst (ZCylinder_ctor xc yc r id_arg name g)"
    and nv: "\<not> vertical azim" and az: "0 \<le> azim" "azim < 2 * pi"
    and p: "0 < polar" "polar < pi"
    and m: "m = sin azim / cos azim" and q: "q = pt_y point - m * pt_x point"
    and a: "a = 1 + m * m" and b: "b = 2 * m * q - 2 * xc - 2 * yc * m"
    and c: "c = q * q - 2 * yc * q + (xc * xc + yc * yc - r * r)"
    and d: "0 < b * b - 4 * a * c"
  shows "ZCylinder_intersection s point azim polar points =
     (case store_root point azim polar (tan (pi / 2 - polar))
             ((- b - sqrt (b * b - 4 * a * c)) / (2 * a))
             (pt_y point + m * ((- b - sqrt (b * b - 4 * a * c)) / (2 * a) - pt_x point))
             (store_root point azim polar (tan (pi / 2 - polar))
                ((- b + sqrt (b * b - 4 * a * c)) / (2 * a))
                (pt_y point + m * ((- b + sqrt (b * b - 4 * a * c)) / (2 * a) - pt_x point))
                (0, points)) of
        (num, points') \<Rightarrow> Some (Returned num, points'))"
proof -
  from not_vertical_cos [OF az nv] have cz: "cos azim \<noteq> 0" .
  have apos: "0 < a" unfolding a by (rule add_pos_nonneg) simp_all
  then have a2: "2 * a \<noteq> 0" by simp
  have "ZCylinder_intersection s point azim polar points =
     (case (fdiv (- b + sqrt (b * b - 4 * a * c)) (2 * a),
            fdiv (- b - sqrt (b * b - 4 * a * c)) (2 * a),
            ftan (pi / 2 - polar)) of
        (Some xcurr1, Some xcurr2, Some t) \<Rightarrow>
          (case store_root point azim polar t xcurr2 (pt_y point + m * (xcurr2 - pt_x point))
                  (store_root point azim polar t xcurr1
                     (pt_y point + m * (xcurr1 - pt_x point)) (0, points)) of
             (num, points') \<Rightarrow> Some (Returned num, points'))
      | _ \<Rightarrow> None)"
    using nv cz d unfolding s
    by (simp add: ZCylinder_intersection_def ZCylinder_coeffs fdiv_def Let_def
        m [symmetric] q [symmetric] a [symmetric] b [symmetric] c [symmetric])
  then show ?thesis
    using a2 by (simp add: fdiv_def ftan_polar [OF p])
qed

lemma on_cylinder_general:
  fixes m q x :: real
  assumes s: "s = fst (ZCylinder_ctor xc yc r id_arg name g)"
    and q: "q = y0 - m * x0"
    and root: "(1 + m * m) * x * x + (2 * m * q - 2 * xc - 2 * yc * m) * x
                 + (q * q - 2 * yc * q + (xc * xc + yc * yc - r * r)) = 0"
  shows "on_cylinder s (setCoords x (y0 + m * (x - x0)) z)"
proof -
  have "(x - xc)\<^sup>2 + (y0 + m * (x - x0) - yc)\<^sup>2 - r\<^sup>2
      = (1 + m * m) * x * x + (2 * m * q - 2 * xc - 2 * yc * m) * x
                 + (q * q - 2 * yc * q + (xc * xc + yc * yc - r * r))"
    unfolding q by (simp add: power2_eq_square algebra_simps)
  with root show ?thesis
    unfolding s by (simp add: on_cylinder_def ZCylinder_coeffs setCoords_def)
qed

lemma on_cylinder_vertical:
  fixes y :: real
  assumes s: "s = fst (ZCylinder_ctor xc yc r id_arg name g)"
    and root: "1 * y * y + (- 2 * yc) * y + (x0 * x0 - 2 * xc * x0 + (xc * xc + yc * yc - r * r)) = 0"
  shows "on_cylinder s (setCoords x0 y z)"
proof -
  have "(x0 - xc)\<^sup>2 + (y - yc)\<^sup>2 - r\<^sup>2
      = 1 * y * y + (- 2 * yc) * y + (x0 * x0 - 2 * xc * x0 + (xc * xc + yc * yc - r * r))"
    by (simp add: power2_eq_square algebra_simps)
  with root show ?thesis
    unfolding s by (simp add: on_cylinder_def ZCylinder_coeffs setCoords_def)
qed

lemma discriminant_vertical:
  assumes s: "s = fst (ZCylinder_ctor xc yc r id_arg name g)" and v: "vertical azim"
  shows "discriminant s point azim
    = (- 2 * yc) * (- 2 * yc) - 4 * 1 * (pt_x point * pt_x point - 2 * xc * pt_x point + (xc * xc + yc * yc - r * r))"
  using v unfolding s by (simp add: discriminant_def ZCylinder_coeffs Let_def algebra_simps)

lemma discriminant_general:
  assumes s: "s = fst (ZCylinder_ctor xc yc r id_arg name g)" and nv: "\<not> vertical azim"
    and m: "m = sin azim / cos azim" and q: "q = pt_y point - m * pt_x point"
  shows "discriminant s point azim
    = (2 * m * q - 2 * xc - 2 * yc * m) * (2 * m * q - 2 * xc - 2 * yc * m)
       - 4 * (1 + m * m) * (q * q - 2 * yc * q + (xc * xc + yc * yc - r * r))"
  using nv unfolding s
  by (simp add: discriminant_def ZCylinder_coeffs Let_def m [symmetric] q [symmetric])

lemma in_direction_iff:
  assumes p: "0 < polar" "polar < pi"
  shows "in_direction azim polar y0 z0 y (z0 + sqrt ((y - y0)\<^sup>2 + (x - x0)\<^sup>2) * tan (pi / 2 - polar))
     \<longleftrightarrow> (azim < pi \<and> y > y0) \<or> (azim > pi \<and> y < y0)"
proof (cases "y = y0")
  case True
  then show ?thesis by (simp add: in_direction_def)
next
  case False
  define rho where "rho = sqrt ((y - y0)\<^sup>2 + (x - x0)\<^sup>2)"
  from False have "0 < (y - y0)\<^sup>2" by simp
  then have "0 < (y - y0)\<^sup>2 + (x - x0)\<^sup>2" by (rule add_pos_nonneg) simp
  then have rho: "0 < rho" unfolding rho_def by simp
  have z: "(z0 + rho * tan (pi / 2 - polar) > z0 \<and> polar < pi / 2)
     \<or> (z0 + rho * tan (pi / 2 - polar) < z0 \<and> polar > pi / 2)
     \<or> (\<bar>z0 + rho * tan (pi / 2 - polar) - z0\<bar> < 1 / 10 ^ 10 \<and> \<bar>polar - pi / 2\<bar> < 1 / 10 ^ 10)"
  proof -
    consider "polar < pi / 2" | "polar = pi / 2" | "polar > pi / 2" by linarith
    then show ?thesis
    proof cases
      case 1
      with p have "0 < tan (pi / 2 - polar)" by (intro tan_gt_zero) simp_all
      with rho have "0 < rho * tan (pi / 2 - polar)" by simp
      with 1 show ?thesis by simp
    next
      case 2
      have "tan (pi / 2 - polar) = 0" unfolding 2 by simp
      then show ?thesis unfolding 2 by simp
    next
      case 3
      with p have "tan (pi / 2 - polar) < 0" by (intro tan_less_zero) simp_all
      with rho have "rho * tan (pi / 2 - polar) < 0" by (simp add: mult_pos_neg)
      with 3 show ?thesis by simp
    qed
  qed
  then show ?thesis
    unfolding in_direction_def rho_def [symmetric] by auto
qed

lemma sin_sign:
  assumes "0 \<le> azim" "azim < 2 * pi" "sin azim \<noteq> 0"
  shows "(azim < pi \<and> 0 < sin azim) \<or> (pi < azim \<and> sin azim < 0)"
proof -
  from assms(3) have "azim \<noteq> 0" "azim \<noteq> pi" by auto
  with assms(1) consider "0 < azim \<and> azim < pi" | "pi < azim" by linarith
  then show ?thesis
  proof cases
    case 1
    then show ?thesis by (simp add: sin_gt_zero)
  next
    case 2
    with assms(2) show ?thesis by (simp add: sin_lt_zero)
  qed
qed

lemma y_check_iff:
  assumes "0 \<le> azim" "azim < 2 * pi" "sin azim \<noteq> 0"
  shows "(azim < pi \<and> y > y0) \<or> (azim > pi \<and> y < y0) \<longleftrightarrow> 0 < (y - y0) * sin azim"
  using sin_sign [OF assms] by (auto simp: zero_less_mult_iff)

lemma through_center_general_root:
  fixes m q a b c x t r :: real
  assumes cz: "cos azim \<noteq> 0" and sz: "sin azim \<noteq> 0"
    and m: "m = sin azim / cos azim" and q: "q = y0 - m * x0"
    and a: "a = 1 + m * m" and b: "b = 2 * m * q - 2 * xc - 2 * yc * m"
    and c: "c = q * q - 2 * yc * q + (xc * xc + yc * yc - r * r)"
    and xc: "xc = x0 + t * cos azim" and yc: "yc = y0 + t * sin azim"
    and r: "0 < r" and t: "r < t"
  shows "b * b - 4 * a * c = 4 * a * (r * r)"
    and "a * x * x + b * x + c = 0 \<Longrightarrow> 0 < (y0 + m * (x - x0) - y0) * sin azim"
proof -
  have mc: "m * cos azim = sin azim" using cz by (simp add: m)
  have apos: "0 < a" unfolding a by (rule add_pos_nonneg) simp_all
  have "a * (cos azim * cos azim) = cos azim * cos azim + (m * cos azim) * (m * cos azim)"
    by (simp add: a algebra_simps)
  also have "\<dots> = 1" unfolding mc using sin_cos_squared_add3 [of azim] by (simp add: add.commute)
  finally have acos: "a * (cos azim * cos azim) = 1" .
  have "yc - y0 = m * (t * cos azim)" using mc by (simp add: yc algebra_simps)
  then have qyc: "q - yc = - m * xc" by (simp add: q xc algebra_simps)
  have "b = 2 * m * (q - yc) - 2 * xc" by (simp add: b algebra_simps)
  then have b': "b = - 2 * a * xc" unfolding qyc by (simp add: a algebra_simps)
  have "c = (q - yc) * (q - yc) + xc * xc - r * r" by (simp add: c algebra_simps)
  then have c': "c = a * (xc * xc) - r * r" unfolding qyc by (simp add: a algebra_simps)
  show "b * b - 4 * a * c = 4 * a * (r * r)"
    unfolding b' c' by (simp add: algebra_simps)
  assume root: "a * x * x + b * x + c = 0"
  define w where "w = (x - xc) * cos azim"
  have "a * ((x - xc) * (x - xc)) = a * x * x + b * x + c + r * r"
    unfolding b' c' by (simp add: algebra_simps)
  with root have axc: "a * ((x - xc) * (x - xc)) = r * r" by simp
  have "w * w = (a * (cos azim * cos azim)) * (w * w)" by (simp add: acos)
  also have "\<dots> = (a * ((x - xc) * (x - xc))) * ((cos azim * cos azim) * (cos azim * cos azim))"
    by (simp add: w_def algebra_simps)
  also have "\<dots> = (r * (cos azim * cos azim)) * (r * (cos azim * cos azim))"
    unfolding axc by (simp add: algebra_simps)
  finally have "w\<^sup>2 = (r * (cos azim * cos azim))\<^sup>2" by (simp add: power2_eq_square)
  then have "w = r * (cos azim * cos azim) \<or> w = - (r * (cos azim * cos azim))"
    by (simp add: power2_eq_iff)
  moreover have "0 \<le> r * (cos azim * cos azim)" using r by simp
  ultimately have wlow: "- (r * (cos azim * cos azim)) \<le> w" by auto
  have cpos: "0 < cos azim * cos azim" using cz by (auto simp: zero_less_mult_iff)
  have "(x - x0) * cos azim = w + t * (cos azim * cos azim)"
    by (simp add: w_def xc algebra_simps)
  with wlow have "(t - r) * (cos azim * cos azim) \<le> (x - x0) * cos azim"
    by (simp add: algebra_simps)
  moreover have "0 < (t - r) * (cos azim * cos azim)" using t cpos by simp
  ultimately have xpos: "0 < (x - x0) * cos azim" by linarith
  have mz: "m \<noteq> 0" using sz cz by (simp add: m)
  have "(y0 + m * (x - x0) - y0) * sin azim = (m * (x - x0)) * (m * cos azim)"
    unfolding mc by simp
  then have eq: "(y0 + m * (x - x0) - y0) * sin azim = (m * m) * ((x - x0) * cos azim)"
    by (simp add: algebra_simps)
  have "0 < m * m" using mz by (auto simp: zero_less_mult_iff)
  then have "0 < (m * m) * ((x - x0) * cos azim)" using xpos by (rule mult_pos_pos)
  then show "0 < (y0 + m * (x - x0) - y0) * sin azim" by (simp only: eq)
qed

lemma vertical_roots_on_cylinder:
  assumes s: "s = fst (ZCylinder_ctor xc yc r id_arg name g)"
    and v: "vertical azim" and d: "0 < discriminant s point azim"
  shows "on_cylinder s (setCoords (pt_x point) ((2 * yc + sqrt (discriminant s point azim)) / 2) z)"
    and "on_cylinder s (setCoords (pt_x point) ((2 * yc - sqrt (discriminant s point azim)) / 2) z)"
proof -
  let ?c = "pt_x point * pt_x point - 2 * xc * pt_x point + (xc * xc + yc * yc - r * r)"
  let ?D = "(- 2 * yc) * (- 2 * yc) - 4 * 1 * ?c"
  have D: "discriminant s point azim = ?D" by (rule discriminant_vertical [OF s v])
  let ?y1 = "(2 * yc + sqrt (discriminant s point azim)) / 2"
  let ?y2 = "(2 * yc - sqrt (discriminant s point azim)) / 2"
  from d D have nn: "0 \<le> ?D" by simp
  have r1: "1 * ?y1 * ?y1 + (- 2 * yc) * ?y1 + ?c = 0"
    by (rule quadratic_root [OF _ nn]) (simp_all add: D)
  have r2: "1 * ?y2 * ?y2 + (- 2 * yc) * ?y2 + ?c = 0"
    by (rule quadratic_root [OF _ nn]) (simp_all add: D)
  show "on_cylinder s (setCoords (pt_x point) ?y1 z)" by (rule on_cylinder_vertical [OF s r1])
  show "on_cylinder s (setCoords (pt_x point) ?y2 z)" by (rule on_cylinder_vertical [OF s r2])
qed


lemma quadratic_root_conv:
  fixes a b c x :: real
  assumes "a \<noteq> 0" and "0 \<le> b * b - 4 * a * c" and "a * x * x + b * x + c = 0"
  shows "x = (- b + sqrt (b * b - 4 * a * c)) / (2 * a)
       \<or> x = (- b - sqrt (b * b - 4 * a * c)) / (2 * a)"
proof -
  define sd where "sd = sqrt (b * b - 4 * a * c)"
  have sd2: "sd\<^sup>2 = b * b - 4 * a * c"
    unfolding sd_def using assms(2) by simp
  have "(2 * a * x + b)\<^sup>2 = 4 * a * (a * x * x + b * x + c) + (b * b - 4 * a * c)"
    by (simp add: power2_eq_square algebra_simps)
  with assms(3) sd2 have "(2 * a * x + b)\<^sup>2 = sd\<^sup>2" by simp
  then have "2 * a * x + b = sd \<or> 2 * a * x + b = - sd" by (simp add: power2_eq_iff)
  then have "2 * a * x = - b + sd \<or> 2 * a * x = - b - sd" by auto
  then have "x = (- b + sd) / (2 * a) \<or> x = (- b - sd) / (2 * a)"
    using assms(1) by (auto simp: field_simps)
  then show ?thesis unfolding sd_def .
qed

lemma Point_eqI:
  fixes p :: Point
  assumes "pt_x p = x" "pt_y p = y" "pt_z p = z"
  shows "p = setCoords x y z"
  using assms by (cases p) (simp add: setCoords_def)

lemma store_two_set:
  fixes P1 P2 :: Point
  assumes st: "store_root point azim polar t x2 y2
                 (store_root point azim polar t x1 y1 (0, points)) = (num, points')"
    and P1: "P1 = setCoords x1 y1
               (pt_z point + sqrt ((y1 - pt_y point)\<^sup>2 + (x1 - pt_x point)\<^sup>2) * t)"
    and P2: "P2 = setCoords x2 y2
               (pt_z point + sqrt ((y2 - pt_y point)\<^sup>2 + (x2 - pt_x point)\<^sup>2) * t)"
    and ne: "P1 \<noteq> P2"
    and g1: "in_direction azim polar (pt_y point) (pt_z point) y1
               (pt_z point + sqrt ((y1 - pt_y point)\<^sup>2 + (x1 - pt_x point)\<^sup>2) * t)
             \<longleftrightarrow> G P1"
    and g2: "in_direction azim polar (pt_y point) (pt_z point) y2
               (pt_z point + sqrt ((y2 - pt_y point)\<^sup>2 + (x2 - pt_x point)\<^sup>2) * t)
             \<longleftrightarrow> G P2"
  shows "points' ` {..<num} = {p. (p = P1 \<or> p = P2) \<and> G p}"
    and "card {p. (p = P1 \<or> p = P2) \<and> G p} = num"
    and "num \<le> 2"
proof -
  have res: "(num, points') =
      (if G P2 then (if G P1 then 1 else 0) + 1 else (if G P1 then 1 else 0),
       (points(0 := P1))((if G P1 then 1 else 0) := P2))"
    unfolding st [symmetric] store_root_eq g1 g2 P1 [symmetric] P2 [symmetric]
    by simp
  have two: "{..<(2::nat)} = {0, 1}" by auto
  have one: "{..<(1::nat)} = {0}" by auto
  consider "G P1" "G P2" | "G P1" "\<not> G P2" | "\<not> G P1" "G P2" | "\<not> G P1" "\<not> G P2"
    by blast
  then have "points' ` {..<num} = {p. (p = P1 \<or> p = P2) \<and> G p}
      \<and> card {p. (p = P1 \<or> p = P2) \<and> G p} = num \<and> num \<le> 2"
  proof cases
    case 1
    with res have n: "num = 2" and p: "points' = points(0 := P1, 1 := P2)" by simp_all
    from 1 have s: "{p. (p = P1 \<or> p = P2) \<and> G p} = {P1, P2}" by auto
    show ?thesis unfolding s n p two using ne by simp
  next
    case 2
    with res have n: "num = 1" and p: "points' = points(0 := P1, 1 := P2)" by simp_all
    from 2 have s: "{p. (p = P1 \<or> p = P2) \<and> G p} = {P1}" by auto
    show ?thesis unfolding s n p one by simp
  next
    case 3
    with res have n: "num = 1" and p: "points' = points(0 := P2)" by simp_all
    from 3 have s: "{p. (p = P1 \<or> p = P2) \<and> G p} = {P2}" by auto
    show ?thesis unfolding s n p one by simp
  next
    case 4
    with res have n: "num = 0" and p: "points' = points(0 := P2)" by simp_all
    from 4 have s: "{p. (p = P1 \<or> p = P2) \<and> G p} = {}" by auto
    show ?thesis unfolding s n by simp
  qed
  then show "points' ` {..<num} = {p. (p = P1 \<or> p = P2) \<and> G p}"
    and "card {p. (p = P1 \<or> p = P2) \<and> G p} = num"
    and "num \<le> 2"
    by simp_all
qed

lemma towards_iff_ahead:
  assumes az: "0 \<le> azim" "azim < 2 * pi" and sz: "sin azim \<noteq> 0"
    and tr: "on_track point azim polar p"
  shows "(azim < pi \<and> pt_y p > pt_y point) \<or> (azim > pi \<and> pt_y p < pt_y point)
     \<longleftrightarrow> ahead_of_origin point azim p"
proof (cases "vertical azim")
  case True
  with tr have "pt_x p = pt_x point" by (simp add: on_track_def)
  then have "ahead_of_origin point azim p \<longleftrightarrow> 0 < (pt_y p - pt_y point) * sin azim"
    by (simp add: ahead_of_origin_def)
  with y_check_iff [OF az sz] show ?thesis by simp
next
  case False
  from not_vertical_cos [OF az False] have cz: "cos azim \<noteq> 0" .
  define u where "u = pt_x p - pt_x point"
  define m where "m = sin azim / cos azim"
  have mc: "m * cos azim = sin azim" using cz by (simp add: m_def)
  from False tr have y: "pt_y p - pt_y point = m * u"
    by (simp add: on_track_def u_def m_def)
  have c2: "0 < cos azim * cos azim" using cz by (auto simp: zero_less_mult_iff)
  have s2: "0 < sin azim * sin azim" using sz by (auto simp: zero_less_mult_iff)
  have unit: "cos azim * cos azim + sin azim * sin azim = 1"
    using sin_cos_squared_add3 [of azim] .
  have "(u * cos azim + (m * u) * sin azim) * cos azim
      = u * (cos azim * cos azim) + u * ((m * cos azim) * sin azim)"
    by (simp only: algebra_simps)
  also have "\<dots> = u * (cos azim * cos azim + sin azim * sin azim)"
    unfolding mc by (simp only: distrib_left)
  also have "\<dots> = u" unfolding unit by simp
  finally have d: "(u * cos azim + (pt_y p - pt_y point) * sin azim) * cos azim = u"
    unfolding y .
  have "((m * u) * sin azim) * cos azim = ((m * cos azim) * sin azim) * u"
    by (simp only: algebra_simps)
  then have "((pt_y p - pt_y point) * sin azim) * cos azim = (sin azim * sin azim) * u"
    unfolding mc y .
  then have "(((pt_y p - pt_y point) * sin azim) * cos azim) * cos azim
      = ((sin azim * sin azim) * u) * cos azim" by (simp only:)
  then have e: "((pt_y p - pt_y point) * sin azim) * (cos azim * cos azim)
      = (sin azim * sin azim) * (u * cos azim)" by (simp only: mult.assoc)
  from d have "((u * cos azim + (pt_y p - pt_y point) * sin azim) * cos azim) * cos azim
      = u * cos azim" by (simp only:)
  then have d': "(u * cos azim + (pt_y p - pt_y point) * sin azim) * (cos azim * cos azim)
      = u * cos azim" by (simp only: mult.assoc)
  have "0 < (pt_y p - pt_y point) * sin azim \<longleftrightarrow> 0 < u * cos azim"
  proof -
    have "0 < (pt_y p - pt_y point) * sin azim
        \<longleftrightarrow> 0 < ((pt_y p - pt_y point) * sin azim) * (cos azim * cos azim)"
      using c2 by (simp add: zero_less_mult_iff)
    also have "\<dots> \<longleftrightarrow> 0 < (sin azim * sin azim) * (u * cos azim)" unfolding e ..
    also have "\<dots> \<longleftrightarrow> 0 < u * cos azim" using s2 by (simp add: zero_less_mult_iff)
    finally show ?thesis .
  qed
  moreover have "ahead_of_origin point azim p \<longleftrightarrow> 0 < u * cos azim"
  proof -
    have "ahead_of_origin point azim p
        \<longleftrightarrow> 0 < (u * cos azim + (pt_y p - pt_y point) * sin azim) * (cos azim * cos azim)"
      unfolding ahead_of_origin_def u_def using c2 by (simp add: zero_less_mult_iff)
    then show ?thesis unfolding d' .
  qed
  ultimately show ?thesis using y_check_iff [OF az sz] by simp
qed


lemma on_cylinder_iff_general:
  fixes m q :: real
  assumes s: "s = fst (ZCylinder_ctor xc yc r id_arg name g)"
    and q: "q = y0 - m * x0"
    and y: "pt_y p = y0 + m * (pt_x p - x0)"
  shows "on_cylinder s p \<longleftrightarrow>
     (1 + m * m) * pt_x p * pt_x p + (2 * m * q - 2 * xc - 2 * yc * m) * pt_x p
       + (q * q - 2 * yc * q + (xc * xc + yc * yc - r * r)) = 0"
proof -
  have "(pt_x p - xc)\<^sup>2 + (y0 + m * (pt_x p - x0) - yc)\<^sup>2 - r\<^sup>2
      = (1 + m * m) * pt_x p * pt_x p + (2 * m * q - 2 * xc - 2 * yc * m) * pt_x p
                 + (q * q - 2 * yc * q + (xc * xc + yc * yc - r * r))"
    unfolding q by (simp add: power2_eq_square algebra_simps)
  moreover have "on_cylinder s p \<longleftrightarrow>
      (pt_x p - xc)\<^sup>2 + (y0 + m * (pt_x p - x0) - yc)\<^sup>2 - r\<^sup>2 = 0"
    unfolding s by (simp add: on_cylinder_def ZCylinder_coeffs y)
  ultimately show ?thesis by simp
qed

lemma on_cylinder_iff_vertical:
  assumes s: "s = fst (ZCylinder_ctor xc yc r id_arg name g)"
    and x: "pt_x p = x0"
  shows "on_cylinder s p \<longleftrightarrow>
     1 * pt_y p * pt_y p + (- 2 * yc) * pt_y p
       + (x0 * x0 - 2 * xc * x0 + (xc * xc + yc * yc - r * r)) = 0"
proof -
  have "(x0 - xc)\<^sup>2 + (pt_y p - yc)\<^sup>2 - r\<^sup>2
      = 1 * pt_y p * pt_y p + (- 2 * yc) * pt_y p
          + (x0 * x0 - 2 * xc * x0 + (xc * xc + yc * yc - r * r))"
    by (simp add: power2_eq_square algebra_simps)
  moreover have "on_cylinder s p \<longleftrightarrow> (x0 - xc)\<^sup>2 + (pt_y p - yc)\<^sup>2 - r\<^sup>2 = 0"
    unfolding s by (simp add: on_cylinder_def ZCylinder_coeffs x)
  ultimately show ?thesis by simp
qed

lemma ZC_two_roots_set:
  assumes s: "s = fst (ZCylinder_ctor xc yc r id_arg name g)"
    and az: "0 \<le> azim" "azim < 2 * pi"
    and p: "0 < polar" "polar < pi"
    and d: "0 < discriminant s point azim"
  shows "\<exists>num points'.
      ZCylinder_intersection s point azim polar points = Some (Returned num, points')
      \<and> points' ` {..<num}
          = {p. on_cylinder s p \<and> on_track point azim polar p
                \<and> (azim < pi \<and> pt_y p > pt_y point \<or> azim > pi \<and> pt_y p < pt_y point)}
      \<and> card {p. on_cylinder s p \<and> on_track point azim polar p
                \<and> (azim < pi \<and> pt_y p > pt_y point \<or> azim > pi \<and> pt_y p < pt_y point)}
          = num
      \<and> num \<le> 2"
proof -
  let ?t = "tan (pi / 2 - polar)"
  let ?x0 = "pt_x point" and ?y0 = "pt_y point" and ?z0 = "pt_z point"
  let ?Z = "\<lambda>x y. ?z0 + sqrt ((y - ?y0)\<^sup>2 + (x - ?x0)\<^sup>2) * ?t"
  let ?G = "\<lambda>p. azim < pi \<and> pt_y p > pt_y point \<or> azim > pi \<and> pt_y p < pt_y point"
  have key: "\<exists>x1 y1 x2 y2 num points'.
      ZCylinder_intersection s point azim polar points = Some (Returned num, points')
      \<and> store_root point azim polar ?t x2 y2 (store_root point azim polar ?t x1 y1 (0, points))
          = (num, points')
      \<and> setCoords x1 y1 (?Z x1 y1) \<noteq> setCoords x2 y2 (?Z x2 y2)
      \<and> (\<forall>p. on_cylinder s p \<and> on_track point azim polar p
            \<longleftrightarrow> p = setCoords x1 y1 (?Z x1 y1) \<or> p = setCoords x2 y2 (?Z x2 y2))"
  proof (cases "vertical azim")
    case True
    let ?c = "?x0 * ?x0 - 2 * xc * ?x0 + (xc * xc + yc * yc - r * r)"
    let ?D = "(- 2 * yc) * (- 2 * yc) - 4 * 1 * ?c"
    have D: "discriminant s point azim = ?D" by (rule discriminant_vertical [OF s True])
    from d D have dpos: "0 < ?D" and nn: "0 \<le> ?D" by simp_all
    let ?y1 = "(2 * yc + sqrt (discriminant s point azim)) / 2"
    let ?y2 = "(2 * yc - sqrt (discriminant s point azim)) / 2"
    have y1: "?y1 = (- (- 2 * yc) + sqrt ?D) / (2 * 1)"
      and y2: "?y2 = (- (- 2 * yc) - sqrt ?D) / (2 * 1)"
      unfolding D by simp_all
    obtain num points' where st:
      "store_root point azim polar ?t ?x0 ?y2 (store_root point azim polar ?t ?x0 ?y1 (0, points))
       = (num, points')"
      by (cases "store_root point azim polar ?t ?x0 ?y2
         (store_root point azim polar ?t ?x0 ?y1 (0, points))")
    from d have "0 < sqrt (discriminant s point azim)" by simp
    then have "?y1 \<noteq> ?y2" by simp
    then have ne: "setCoords ?x0 ?y1 (?Z ?x0 ?y1) \<noteq> setCoords ?x0 ?y2 (?Z ?x0 ?y2)"
      by (simp add: setCoords_def)
    have pts: "on_cylinder s p \<and> on_track point azim polar p
        \<longleftrightarrow> p = setCoords ?x0 ?y1 (?Z ?x0 ?y1) \<or> p = setCoords ?x0 ?y2 (?Z ?x0 ?y2)" for p
    proof
      assume h: "on_cylinder s p \<and> on_track point azim polar p"
      with True have x: "pt_x p = ?x0" and z: "pt_z p = ?Z (pt_x p) (pt_y p)"
        by (simp_all add: on_track_def)
      from h on_cylinder_iff_vertical [OF s x]
      have "1 * pt_y p * pt_y p + (- 2 * yc) * pt_y p + ?c = 0" by simp
      from quadratic_root_conv [OF _ nn this]
      have "pt_y p = ?y1 \<or> pt_y p = ?y2" unfolding y1 y2 by simp
      then show "p = setCoords ?x0 ?y1 (?Z ?x0 ?y1) \<or> p = setCoords ?x0 ?y2 (?Z ?x0 ?y2)"
      proof
        assume e: "pt_y p = ?y1"
        have "p = setCoords ?x0 ?y1 (?Z ?x0 ?y1)"
          by (rule Point_eqI [OF x e]) (simp only: z x e)
        then show ?thesis ..
      next
        assume e: "pt_y p = ?y2"
        have "p = setCoords ?x0 ?y2 (?Z ?x0 ?y2)"
          by (rule Point_eqI [OF x e]) (simp only: z x e)
        then show ?thesis ..
      qed
    next
      assume "p = setCoords ?x0 ?y1 (?Z ?x0 ?y1) \<or> p = setCoords ?x0 ?y2 (?Z ?x0 ?y2)"
      then show "on_cylinder s p \<and> on_track point azim polar p"
        using vertical_roots_on_cylinder [OF s True d] True
        by (auto simp: on_track_def) (simp_all add: setCoords_def)
    qed
    from ZC_vertical_two [OF s True d p, of points] st ne pts show ?thesis
      by (intro exI [of _ ?x0] exI [of _ ?y1] exI [of _ ?y2] exI [of _ num]
          exI [of _ points']) simp
  next
    case False
    define m where "m = sin azim / cos azim"
    define q where "q = ?y0 - m * ?x0"
    define a where "a = 1 + m * m"
    define b where "b = 2 * m * q - 2 * xc - 2 * yc * m"
    define c where "c = q * q - 2 * yc * q + (xc * xc + yc * yc - r * r)"
    have D: "discriminant s point azim = b * b - 4 * a * c"
      unfolding a_def b_def c_def by (rule discriminant_general [OF s False m_def q_def])
    with d have dpos: "0 < b * b - 4 * a * c" and nn: "0 \<le> b * b - 4 * a * c" by simp_all
    have apos: "0 < a" unfolding a_def by (rule add_pos_nonneg) simp_all
    then have a0: "a \<noteq> 0" by simp
    define x1 where "x1 = (- b + sqrt (b * b - 4 * a * c)) / (2 * a)"
    define x2 where "x2 = (- b - sqrt (b * b - 4 * a * c)) / (2 * a)"
    define y1 where "y1 = ?y0 + m * (x1 - ?x0)"
    define y2 where "y2 = ?y0 + m * (x2 - ?x0)"
    obtain num points' where st:
      "store_root point azim polar ?t x2 y2 (store_root point azim polar ?t x1 y1 (0, points))
       = (num, points')"
      by (cases "store_root point azim polar ?t x2 y2
         (store_root point azim polar ?t x1 y1 (0, points))")
    from dpos have sp: "0 < sqrt (b * b - 4 * a * c)" by simp
    have "x1 - x2 = sqrt (b * b - 4 * a * c) / a"
      unfolding x1_def x2_def using a0 by (simp add: field_simps)
    with sp apos have "0 < x1 - x2" by simp
    then have "x1 \<noteq> x2" by simp
    then have ne: "setCoords x1 y1 (?Z x1 y1) \<noteq> setCoords x2 y2 (?Z x2 y2)"
      by (simp add: setCoords_def)
    have r1: "a * x1 * x1 + b * x1 + c = 0"
      unfolding x1_def by (rule quadratic_root [OF a0 nn]) simp
    have r2: "a * x2 * x2 + b * x2 + c = 0"
      unfolding x2_def by (rule quadratic_root [OF a0 nn]) simp
    have c1: "on_cylinder s (setCoords x1 y1 z)" for z
      unfolding y1_def
      by (rule on_cylinder_general [OF s q_def]) (use r1 in \<open>simp add: a_def b_def c_def\<close>)
    have c2: "on_cylinder s (setCoords x2 y2 z)" for z
      unfolding y2_def
      by (rule on_cylinder_general [OF s q_def]) (use r2 in \<open>simp add: a_def b_def c_def\<close>)
    have t1: "on_track point azim polar (setCoords x1 y1 (?Z x1 y1))"
      using False by (simp add: on_track_def setCoords_def y1_def m_def)
    have t2: "on_track point azim polar (setCoords x2 y2 (?Z x2 y2))"
      using False by (simp add: on_track_def setCoords_def y2_def m_def)
    have pts: "on_cylinder s p \<and> on_track point azim polar p
        \<longleftrightarrow> p = setCoords x1 y1 (?Z x1 y1) \<or> p = setCoords x2 y2 (?Z x2 y2)" for p
    proof
      assume h: "on_cylinder s p \<and> on_track point azim polar p"
      with False have y: "pt_y p = ?y0 + m * (pt_x p - ?x0)"
        and z: "pt_z p = ?Z (pt_x p) (pt_y p)"
        by (simp_all add: on_track_def m_def)
      from h on_cylinder_iff_general [OF s q_def y]
      have "a * pt_x p * pt_x p + b * pt_x p + c = 0" by (simp add: a_def b_def c_def)
      from quadratic_root_conv [OF a0 nn this]
      have "pt_x p = x1 \<or> pt_x p = x2" unfolding x1_def x2_def .
      then show "p = setCoords x1 y1 (?Z x1 y1) \<or> p = setCoords x2 y2 (?Z x2 y2)"
      proof
        assume e: "pt_x p = x1"
        with y have e': "pt_y p = y1" by (simp add: y1_def)
        have "p = setCoords x1 y1 (?Z x1 y1)"
          by (rule Point_eqI [OF e e']) (simp only: z e e')
        then show ?thesis ..
      next
        assume e: "pt_x p = x2"
        with y have e': "pt_y p = y2" by (simp add: y2_def)
        have "p = setCoords x2 y2 (?Z x2 y2)"
          by (rule Point_eqI [OF e e']) (simp only: z e e')
        then show ?thesis ..
      qed
    next
      assume "p = setCoords x1 y1 (?Z x1 y1) \<or> p = setCoords x2 y2 (?Z x2 y2)"
      with c1 c2 t1 t2 show "on_cylinder s p \<and> on_track point azim polar p" by auto
    qed
    have "ZCylinder_intersection s point azim polar points = Some (Returned num, points')"
      unfolding ZC_general_two [OF s False az p m_def q_def a_def b_def c_def dpos]
      unfolding x1_def [symmetric] x2_def [symmetric]
      unfolding y1_def [symmetric] y2_def [symmetric] st
      by simp
    with st ne pts show ?thesis by blast
  qed
  then obtain x1 y1 x2 y2 num points' where
    res: "ZCylinder_intersection s point azim polar points = Some (Returned num, points')"
    and st: "store_root point azim polar ?t x2 y2
               (store_root point azim polar ?t x1 y1 (0, points)) = (num, points')"
    and ne: "setCoords x1 y1 (?Z x1 y1) \<noteq> setCoords x2 y2 (?Z x2 y2)"
    and pts: "\<And>p. on_cylinder s p \<and> on_track point azim polar p
            \<longleftrightarrow> p = setCoords x1 y1 (?Z x1 y1) \<or> p = setCoords x2 y2 (?Z x2 y2)"
    by blast
  let ?P1 = "setCoords x1 y1 (?Z x1 y1)" and ?P2 = "setCoords x2 y2 (?Z x2 y2)"
  have g1: "in_direction azim polar ?y0 ?z0 y1 (?Z x1 y1) \<longleftrightarrow> ?G ?P1"
    using in_direction_iff [OF p, of azim ?y0 ?z0 y1 x1 ?x0]
    by (simp add: setCoords_def)
  have g2: "in_direction azim polar ?y0 ?z0 y2 (?Z x2 y2) \<longleftrightarrow> ?G ?P2"
    using in_direction_iff [OF p, of azim ?y0 ?z0 y2 x2 ?x0]
    by (simp add: setCoords_def)
  note sts = store_two_set [OF st refl refl ne g1 g2]
  have S: "{p. on_cylinder s p \<and> on_track point azim polar p
               \<and> (azim < pi \<and> pt_y p > pt_y point \<or> azim > pi \<and> pt_y p < pt_y point)}
      = {p. (p = ?P1 \<or> p = ?P2) \<and> ?G p}"
    using pts by auto
  show ?thesis
    unfolding S using res sts by blast
qed

lemma store_both:
  assumes p: "0 < polar" "polar < pi"
    and az: "0 \<le> azim" "azim < 2 * pi" "sin azim \<noteq> 0"
    and y1: "0 < (y1 - pt_y point) * sin azim" and y2: "0 < (y2 - pt_y point) * sin azim"
  shows "\<exists>z1 z2. store_root point azim polar (tan (pi / 2 - polar)) x2 y2
           (store_root point azim polar (tan (pi / 2 - polar)) x1 y1 (0, points))
         = (2, points(0 := setCoords x1 y1 z1, 1 := setCoords x2 y2 z2))"
  using y1 y2
  by (simp add: store_root_eq in_direction_iff [OF p] y_check_iff [OF az])
    (intro exI, rule refl)

lemma through_center_vertical:
  assumes s: "s = fst (ZCylinder_ctor xc yc r id_arg name g)"
    and v: "vertical azim" and band: "t * \<bar>cos azim\<bar> < r" and sz: "sin azim \<noteq> 0"
    and az: "0 \<le> azim" "azim < 2 * pi" and p: "0 < polar" "polar < pi"
    and r: "0 < r" and t: "r < t"
    and xc: "xc = pt_x point + t * cos azim" and yc: "yc = pt_y point + t * sin azim"
  shows "\<exists>points'. ZCylinder_intersection s point azim polar points = Some (Returned 2, points')
           \<and> on_cylinder s (points' 0) \<and> on_cylinder s (points' 1)"
proof -
  define co where "co = cos azim"
  define si where "si = sin azim"
  have unit: "co * co + si * si = 1"
    unfolding co_def si_def using sin_cos_squared_add3 [of azim] .
  have si2: "0 < si * si" using sz by (auto simp: si_def zero_less_mult_iff)
  have tpos: "0 < t" using r t by simp
  define h2 where "h2 = r * r - (t * co) * (t * co)"
  have "\<bar>t * co\<bar> < r" using band tpos by (simp add: abs_mult co_def)
  then have "\<bar>t * co\<bar>\<^sup>2 < r\<^sup>2" by (intro power_strict_mono) simp_all
  then have "(t * co)\<^sup>2 < r\<^sup>2" by simp
  then have h2pos: "0 < h2" by (simp add: h2_def power2_eq_square)
  define h where "h = sqrt h2"
  have hpos: "0 < h" and hh: "h * h = h2" using h2pos by (simp_all add: h_def)
  have x0: "pt_x point = xc - t * co" by (simp add: xc co_def)
  have "discriminant s point azim = 4 * h2"
    unfolding discriminant_vertical [OF s v] h2_def x0 by (simp add: algebra_simps)
  then have D: "discriminant s point azim = (2 * h)\<^sup>2"
    by (simp add: power2_eq_square hh)
  have "sqrt ((2 * h)\<^sup>2) = \<bar>2 * h\<bar>" by (rule real_sqrt_abs)
  with hpos have sq: "sqrt (discriminant s point azim) = 2 * h" unfolding D by simp
  from D hpos have d: "0 < discriminant s point azim" by simp
  let ?y1 = "(2 * yc + sqrt (discriminant s point azim)) / 2"
  let ?y2 = "(2 * yc - sqrt (discriminant s point azim)) / 2"
  have h1: "?y1 - pt_y point = t * si + h" by (simp add: sq yc si_def field_simps)
  have h2': "?y2 - pt_y point = t * si - h" by (simp add: sq yc si_def field_simps)
  have "h2 < t * t * (si * si)"
  proof -
    have "r * r < t * t" using r t by (simp add: mult_strict_mono)
    also have "t * t = t * t * (co * co + si * si)" by (simp add: unit)
    finally show ?thesis by (simp add: h2_def algebra_simps)
  qed
  then have "h2 * (si * si) < (t * t * (si * si)) * (si * si)"
    using si2 by (rule mult_strict_right_mono)
  then have "(\<bar>h * si\<bar>)\<^sup>2 < (t * (si * si))\<^sup>2"
    by (simp add: power2_eq_square hh [symmetric] algebra_simps)
  moreover have "0 \<le> t * (si * si)" using tpos si2 by simp
  ultimately have lt: "\<bar>h * si\<bar> < t * (si * si)" by (rule power2_less_imp_less)
  have "(?y1 - pt_y point) * sin azim = (t * si + h) * si" by (simp only: h1 si_def)
  also have "\<dots> = t * (si * si) + h * si" by (simp add: algebra_simps)
  finally have e1: "(?y1 - pt_y point) * sin azim = t * (si * si) + h * si" .
  from lt e1 have p1: "0 < (?y1 - pt_y point) * sin azim" by linarith
  have "(?y2 - pt_y point) * sin azim = (t * si - h) * si" by (simp only: h2' si_def)
  also have "\<dots> = t * (si * si) - h * si" by (simp add: algebra_simps)
  finally have e2: "(?y2 - pt_y point) * sin azim = t * (si * si) - h * si" .
  from lt e2 have p2: "0 < (?y2 - pt_y point) * sin azim" by linarith
  from store_both [OF p az sz p1 p2, of "pt_x point" "pt_x point" points]
  obtain z1 z2 where st:
    "store_root point azim polar (tan (pi / 2 - polar)) (pt_x point) ?y2
       (store_root point azim polar (tan (pi / 2 - polar)) (pt_x point) ?y1 (0, points))
     = (2, points(0 := setCoords (pt_x point) ?y1 z1, 1 := setCoords (pt_x point) ?y2 z2))"
    by blast
  show ?thesis
    unfolding ZC_vertical_two [OF s v d p] st
    by (simp add: vertical_roots_on_cylinder [OF s v d])
qed

lemma through_center_general:
  assumes s: "s = fst (ZCylinder_ctor xc yc r id_arg name g)"
    and nv: "\<not> vertical azim" and sz: "sin azim \<noteq> 0"
    and az: "0 \<le> azim" "azim < 2 * pi" and p: "0 < polar" "polar < pi"
    and r: "0 < r" and t: "r < t"
    and xc: "xc = pt_x point + t * cos azim" and yc: "yc = pt_y point + t * sin azim"
  shows "\<exists>points'. ZCylinder_intersection s point azim polar points = Some (Returned 2, points')
           \<and> on_cylinder s (points' 0) \<and> on_cylinder s (points' 1)"
proof -
  define m where "m = sin azim / cos azim"
  define q where "q = pt_y point - m * pt_x point"
  define a where "a = 1 + m * m"
  define b where "b = 2 * m * q - 2 * xc - 2 * yc * m"
  define c where "c = q * q - 2 * yc * q + (xc * xc + yc * yc - r * r)"
  from not_vertical_cos [OF az nv] have cz: "cos azim \<noteq> 0" .
  note tc = through_center_general_root [OF cz sz m_def q_def a_def b_def c_def xc yc r t]
  have apos: "0 < a" unfolding a_def by (rule add_pos_nonneg) simp_all
  then have a0: "a \<noteq> 0" by simp
  from apos r have dpos: "0 < b * b - 4 * a * c" unfolding tc(1) by simp
  then have nn: "0 \<le> b * b - 4 * a * c" by simp
  let ?x1 = "(- b + sqrt (b * b - 4 * a * c)) / (2 * a)"
  let ?x2 = "(- b - sqrt (b * b - 4 * a * c)) / (2 * a)"
  let ?y1 = "pt_y point + m * (?x1 - pt_x point)"
  let ?y2 = "pt_y point + m * (?x2 - pt_x point)"
  have r1: "a * ?x1 * ?x1 + b * ?x1 + c = 0" by (rule quadratic_root [OF a0 nn]) simp
  have r2: "a * ?x2 * ?x2 + b * ?x2 + c = 0" by (rule quadratic_root [OF a0 nn]) simp
  have p1: "0 < (?y1 - pt_y point) * sin azim" by (rule tc(2) [OF r1])
  have p2: "0 < (?y2 - pt_y point) * sin azim" by (rule tc(2) [OF r2])
  have c1: "on_cylinder s (setCoords ?x1 ?y1 z)" for z
    by (rule on_cylinder_general [OF s q_def]) (use r1 in \<open>simp add: a_def b_def c_def\<close>)
  have c2: "on_cylinder s (setCoords ?x2 ?y2 z)" for z
    by (rule on_cylinder_general [OF s q_def]) (use r2 in \<open>simp add: a_def b_def c_def\<close>)
  from store_both [OF p az sz p1 p2, of ?x2 ?x1 points]
  obtain z1 z2 where st:
    "store_root point azim polar (tan (pi / 2 - polar)) ?x2 ?y2
       (store_root point azim polar (tan (pi / 2 - polar)) ?x1 ?y1 (0, points))
     = (2, points(0 := setCoords ?x1 ?y1 z1, 1 := setCoords ?x2 ?y2 z2))"
    by blast
  define P where "P = points(0 := setCoords ?x1 ?y1 z1, 1 := setCoords ?x2 ?y2 z2)"
  have P0: "P 0 = setCoords ?x1 ?y1 z1" and P1: "P 1 = setCoords ?x2 ?y2 z2"
    unfolding P_def by simp_all
  have "ZCylinder_intersection s point azim polar points = Some (Returned 2, P)"
    unfolding ZC_general_two [OF s nv az p m_def q_def a_def b_def c_def dpos] st P_def
    by simp
  moreover have "on_cylinder s (P 0)" unfolding P0 by (rule c1)
  moreover have "on_cylinder s (P 1)" unfolding P1 by (rule c2)
  ultimately show ?thesis by blast
qed


text \<open>
  In the band of azimuths that the code treats as vertical the track is the line
  \<open>x = x0\<close>, whatever the small slope of the ray: a ray through the center whose
  origin is so far away that the line passes the cylinder by gets 0.
\<close>

lemma band_misses_cylinder:
  assumes s: "s = fst (ZCylinder_ctor xc yc r id_arg name g)"
    and v: "vertical azim" and far: "r < t * \<bar>cos azim\<bar>"
    and az: "0 \<le> azim" "azim < 2 * pi" and r: "0 < r"
    and xc: "xc = pt_x point + t * cos azim"
  shows "ZCylinder_intersection s point azim polar points = Some (Returned 0, points)"
proof -
  have x0: "pt_x point = xc - t * cos azim" by (simp add: xc)
  have "r\<^sup>2 < (t * \<bar>cos azim\<bar>)\<^sup>2" using far r by (intro power_strict_mono) simp_all
  also have "(t * \<bar>cos azim\<bar>)\<^sup>2 = (t * cos azim) * (t * cos azim)"
    by (simp add: power2_eq_square)
  finally have lt: "r * r < (t * cos azim) * (t * cos azim)" by (simp add: power2_eq_square)
  have "discriminant s point azim = 4 * (r * r - (t * cos azim) * (t * cos azim))"
    unfolding discriminant_vertical [OF s v] x0 by (simp add: algebra_simps)
  with lt have "discriminant s point azim < 0" by simp
  then show ?thesis by (rule ZC_no_root [OF az])
qed

text \<open>
  Claim C1, as amended. For a cylinder of radius \<open>r\<close> around \<open>(xc, yc)\<close> and a ray
  with \<open>azim\<close> in \<open>[0, 2 pi)\<close> and \<open>polar\<close> in \<open>(0, pi)\<close>, the count of
  \<open>ZCylinder::intersection\<close> follows the discriminant and the direction of the ray.
  With a negative discriminant it returns 0 and leaves the buffer alone. With a positive
  discriminant it returns at most 2 points, all of them on the track and at the distance
  \<open>r\<close> from the axis; when the ray is not horizontal the points it returns are
  exactly the points of the track on the cylinder that lie ahead of the origin, and the
  count is their number: a root behind the origin is dropped, a root ahead is counted.
  It returns exactly 2 for a ray through the center whose origin is outside the
  cylinder (the center is at the distance \<open>t > r\<close> ahead), when the ray is not
  horizontal and, in the band of azimuths treated as vertical, the line \<open>x = x0\<close>
  still cuts the cylinder (\<open>t |cos azim| < r\<close>). The tangent case is left out.
\<close>

theorem ZCylinder_intersection_count:
  assumes s: "s = fst (ZCylinder_ctor xc yc r id_arg name g)"
    and az: "0 \<le> azim" "azim < 2 * pi" and p: "0 < polar" "polar < pi"
  shows "(discriminant s point azim < 0 \<longrightarrow>
            ZCylinder_intersection s point azim polar points = Some (Returned 0, points))
       \<and> (0 < discriminant s point azim \<longrightarrow>
            (\<exists>num points'.
               ZCylinder_intersection s point azim polar points = Some (Returned num, points')
               \<and> num \<le> 2
               \<and> (\<forall>i < num. on_cylinder s (points' i) \<and> on_track point azim polar (points' i))
               \<and> (sin azim \<noteq> 0 \<longrightarrow>
                    points' ` {..<num}
                      = {p. on_cylinder s p \<and> on_track point azim polar p
                            \<and> ahead_of_origin point azim p}
                    \<and> card {p. on_cylinder s p \<and> on_track point azim polar p
                                \<and> ahead_of_origin point azim p} = num)))
       \<and> (0 < r \<and> r < t \<and> xc = pt_x point + t * cos azim \<and> yc = pt_y point + t * sin azim
            \<and> sin azim \<noteq> 0 \<and> (vertical azim \<longrightarrow> t * \<bar>cos azim\<bar> < r) \<longrightarrow>
            (\<exists>points'.
               ZCylinder_intersection s point azim polar points = Some (Returned 2, points')
               \<and> on_cylinder s (points' 0) \<and> on_cylinder s (points' 1)))"
proof (intro conjI impI)
  assume "discriminant s point azim < 0"
  then show "ZCylinder_intersection s point azim polar points = Some (Returned 0, points)"
    by (rule ZC_no_root [OF az])
next
  assume d: "0 < discriminant s point azim"
  let ?T = "{p. on_cylinder s p \<and> on_track point azim polar p
      \<and> (azim < pi \<and> pt_y p > pt_y point \<or> azim > pi \<and> pt_y p < pt_y point)}"
  let ?S = "{p. on_cylinder s p \<and> on_track point azim polar p \<and> ahead_of_origin point azim p}"
  from ZC_two_roots_set [OF s az p d, of points]
  obtain num points' where
    res: "ZCylinder_intersection s point azim polar points = Some (Returned num, points')"
    and img: "points' ` {..<num} = ?T" and card: "card ?T = num" and le: "num \<le> 2"
    by blast
  have mem: "on_cylinder s (points' i) \<and> on_track point azim polar (points' i)"
    if "i < num" for i
  proof -
    from that have "points' i \<in> points' ` {..<num}" by simp
    with img show ?thesis by simp
  qed
  have eq: "?T = ?S" if sz: "sin azim \<noteq> 0"
    using towards_iff_ahead [OF az sz] by auto
  have "sin azim \<noteq> 0 \<longrightarrow> points' ` {..<num} = ?S \<and> card ?S = num"
  proof
    assume sz: "sin azim \<noteq> 0"
    from img card show "points' ` {..<num} = ?S \<and> card ?S = num"
      unfolding eq [OF sz] by (rule conjI)
  qed
  with res le mem
  show "\<exists>num points'.
      ZCylinder_intersection s point azim polar points = Some (Returned num, points')
      \<and> num \<le> 2
      \<and> (\<forall>i < num. on_cylinder s (points' i) \<and> on_track point azim polar (points' i))
      \<and> (sin azim \<noteq> 0 \<longrightarrow> points' ` {..<num} = ?S \<and> card ?S = num)"
    by blast
next
  assume h: "0 < r \<and> r < t \<and> xc = pt_x point + t * cos azim \<and> yc = pt_y point + t * sin azim
      \<and> sin azim \<noteq> 0 \<and> (vertical azim \<longrightarrow> t * \<bar>cos azim\<bar> < r)"
  show "\<exists>points'.
      ZCylinder_intersection s point azim polar points = Some (Returned 2, points')
      \<and> on_cylinder s (points' 0) \<and> on_cylinder s (points' 1)"
  proof (cases "vertical azim")
    case True
    with h have "t * \<bar>cos azim\<bar> < r" by simp
    from through_center_vertical [OF s True this _ az p] h show ?thesis by blast
  next
    case False
    from through_center_general [OF s False _ az p] h show ?thesis by blast
  qed
qed

lemmas zc_eval = ZCylinder_intersection_def vertical_def ZCylinder_coeffs fdiv_def ftan_def
  store_root_def in_direction_def setCoords_def Let_def

theorem ZCylinder_intersection_count_witness:
  "ZCylinder_intersection (fst (ZCylinder_ctor 0 0 1 0 [] initial_globals))
       (setCoords 5 0 0) (pi / 2) (pi / 2) (\<lambda>_. setCoords 9 9 9)
     = Some (Returned 0, \<lambda>_. setCoords 9 9 9)
   \<and> card {p. on_cylinder (fst (ZCylinder_ctor 0 0 1 0 [] initial_globals)) p
              \<and> on_track (setCoords 0 (- 1 / 2) 0) (pi / 2) (pi / 2) p
              \<and> ahead_of_origin (setCoords 0 (- 1 / 2) 0) (pi / 2) p} = 1
   \<and> (\<exists>points'.
        ZCylinder_intersection (fst (ZCylinder_ctor 0 0 1 0 [] initial_globals))
          (setCoords 0 (- 2) 0) (pi / 2) (pi / 2) (\<lambda>_. setCoords 9 9 9)
          = Some (Returned 2, points')
        \<and> on_cylinder (fst (ZCylinder_ctor 0 0 1 0 [] initial_globals)) (points' 0)
        \<and> on_cylinder (fst (ZCylinder_ctor 0 0 1 0 [] initial_globals)) (points' 1))"
proof -
  let ?s = "fst (ZCylinder_ctor 0 0 1 0 [] initial_globals)"
  let ?buf = "\<lambda>_ :: nat. setCoords 9 9 9"
  have v: "vertical (pi / 2)" by (simp add: vertical_def)
  have d1: "discriminant ?s (setCoords 5 0 0) (pi / 2) < 0"
    by (simp add: discriminant_def v ZCylinder_coeffs setCoords_def)
  have d2: "0 < discriminant ?s (setCoords 0 (- 2) 0) (pi / 2)"
    by (simp add: discriminant_def v ZCylinder_coeffs setCoords_def)
  have d3: "0 < discriminant ?s (setCoords 0 (- 1 / 2) 0) (pi / 2)"
    by (simp add: discriminant_def v ZCylinder_coeffs setCoords_def)
  have az: "(0::real) \<le> pi / 2" "pi / 2 < 2 * pi" and p: "0 < pi / 2" "pi / 2 < pi"
    by simp_all
  have c: "(0::real) < 1 \<and> (1::real) < 2 \<and> 0 = pt_x (setCoords 0 (- 2) 0) + 2 * cos (pi / 2)
      \<and> 0 = pt_y (setCoords 0 (- 2) 0) + 2 * sin (pi / 2)
      \<and> sin (pi / 2) \<noteq> 0 \<and> (vertical (pi / 2) \<longrightarrow> 2 * \<bar>cos (pi / 2)\<bar> < 1)"
    by (simp add: setCoords_def)
  from ZCylinder_intersection_count [OF refl az p, of 0 0 1 0 "[]" initial_globals
      "setCoords 5 0 0" ?buf] d1
  have first: "ZCylinder_intersection ?s (setCoords 5 0 0) (pi / 2) (pi / 2) ?buf
      = Some (Returned 0, ?buf)"
    by blast
  have run: "ZCylinder_intersection ?s (setCoords 0 (- 1 / 2) 0) (pi / 2) (pi / 2) ?buf
      = Some (Returned 1, ?buf(0 := setCoords 0 1 0, 1 := setCoords 0 (- 1) 0))"
    by (simp add: zc_eval)
  from ZCylinder_intersection_count [OF refl az p, of 0 0 1 0 "[]" initial_globals
      "setCoords 0 (- 1 / 2) 0" ?buf] d3
  have second: "card {p. on_cylinder ?s p \<and> on_track (setCoords 0 (- 1 / 2) 0) (pi / 2) (pi / 2) p
      \<and> ahead_of_origin (setCoords 0 (- 1 / 2) 0) (pi / 2) p} = 1"
    unfolding run by auto
  from ZCylinder_intersection_count [OF refl az p, of 0 0 1 0 "[]" initial_globals
      "setCoords 0 (- 2) 0" ?buf 2] c d2
  have "\<exists>points'.
        ZCylinder_intersection ?s (setCoords 0 (- 2) 0) (pi / 2) (pi / 2) ?buf
          = Some (Returned 2, points')
        \<and> on_cylinder ?s (points' 0) \<and> on_cylinder ?s (points' 1)"
    by blast
  with first second show ?thesis by blast
qed

text \<open>
  Claim C1 as stated fails: a ray through the center gets 1 point, not 2, when its
  origin is inside the cylinder. The unit cylinder around the origin of the
  coordinates, the ray from \<open>(0, -1/2, 0)\<close> straight up the y-axis: the root at
  \<open>y = 1\<close> is counted, the root at \<open>y = -1\<close>, behind the origin, is stored in
  the next slot and not counted.
\<close>

theorem through_center_from_inside:
  "(0, 0) = (pt_x (setCoords 0 (- 1 / 2) 0) + 1 / 2 * cos (pi / 2),
             pt_y (setCoords 0 (- 1 / 2) 0) + 1 / 2 * sin (pi / 2))
   \<and> ZCylinder_intersection (fst (ZCylinder_ctor 0 0 1 0 [] initial_globals))
       (setCoords 0 (- 1 / 2) 0) (pi / 2) (pi / 2) (\<lambda>_. setCoords 9 9 9)
     = Some (Returned 1,
         (\<lambda>_. setCoords 9 9 9)(0 := setCoords 0 1 0, 1 := setCoords 0 (- 1) 0))"
  by (simp add: zc_eval)


text \<open>
  Runs of the code on inputs that the theorem above leaves out. First a ray through
  the center in the vertical band: the azimuth is \<open>pi/2 + 1e-11\<close>, the center two
  units to the left of the line \<open>x = x0\<close> and far up the ray; the call returns 0.
\<close>

lemma near_vertical_ray_misses:
  "vertical (pi / 2 + 1 / 10 ^ 11)
   \<and> (- 2, 2 * sin (pi / 2 + 1 / 10 ^ 11) / \<bar>cos (pi / 2 + 1 / 10 ^ 11)\<bar>)
       = (pt_x (setCoords 0 0 0)
            + 2 / \<bar>cos (pi / 2 + 1 / 10 ^ 11)\<bar> * cos (pi / 2 + 1 / 10 ^ 11),
          pt_y (setCoords 0 0 0)
            + 2 / \<bar>cos (pi / 2 + 1 / 10 ^ 11)\<bar> * sin (pi / 2 + 1 / 10 ^ 11))
   \<and> 1 < 2 / \<bar>cos (pi / 2 + 1 / 10 ^ 11)\<bar>
   \<and> ZCylinder_intersection
         (fst (ZCylinder_ctor (- 2)
                 (2 * sin (pi / 2 + 1 / 10 ^ 11) / \<bar>cos (pi / 2 + 1 / 10 ^ 11)\<bar>)
                 1 0 [] initial_globals))
         (setCoords 0 0 0) (pi / 2 + 1 / 10 ^ 11) (pi / 2) (\<lambda>_. setCoords 9 9 9)
       = Some (Returned 0, \<lambda>_. setCoords 9 9 9)"
proof -
  define e :: real where "e = 1 / 10 ^ 11"
  define azim where "azim = pi / 2 + e"
  define yc where "yc = 2 * sin azim / \<bar>cos azim\<bar>"
  have e: "0 < e" "e < pi" "e < 1 / 10 ^ 10"
    using pi_ge_two by (simp_all add: e_def)
  have v: "vertical azim" using e by (simp add: vertical_def azim_def)
  have "cos azim = - sin e" by (simp add: azim_def cos_add)
  moreover have "0 < sin e" using e by (intro sin_gt_zero)
  ultimately have cneg: "cos azim < 0" by simp
  then have ab: "\<bar>cos azim\<bar> = - cos azim" by simp
  have t1: "- 2 = pt_x (setCoords 0 0 0) + 2 / \<bar>cos azim\<bar> * cos azim"
    using cneg by (simp add: ab setCoords_def)
  have t2: "yc = pt_y (setCoords 0 0 0) + 2 / \<bar>cos azim\<bar> * sin azim"
    by (simp add: yc_def setCoords_def)
  have le1: "\<bar>cos azim\<bar> \<le> 1" by simp
  have pos: "0 < \<bar>cos azim\<bar>" using cneg by simp
  from le1 have "\<bar>cos azim\<bar> < 2" by linarith
  with pos have t3: "1 < 2 / \<bar>cos azim\<bar>" by (simp add: field_simps)
  have az: "0 \<le> azim" "azim < 2 * pi" using e pi_ge_two by (simp_all add: azim_def)
  have "discriminant (fst (ZCylinder_ctor (- 2) yc 1 0 [] initial_globals))
          (setCoords 0 0 0) azim = - 12"
    unfolding discriminant_vertical [OF refl v] by (simp add: setCoords_def algebra_simps)
  then have "discriminant (fst (ZCylinder_ctor (- 2) yc 1 0 [] initial_globals))
          (setCoords 0 0 0) azim < 0" by simp
  from ZC_no_root [OF az this, of "pi / 2" "\<lambda>_. setCoords 9 9 9"] v t1 t2 t3
  show ?thesis unfolding yc_def azim_def e_def by simp
qed

text \<open>
  A horizontal ray through the center from outside gets 0: \<open>ycurr\<close> equals \<open>y0\<close>
  and neither comparison of the directional check holds. A tangent ray that is not
  vertical computes \<open>ycurr\<close> from \<open>points[num].getX()\<close>, the x coordinate the
  caller's buffer happened to hold, and not from \<open>xcurr\<close>: the stored point and
  the count change with the buffer (the tangent point itself is \<open>(-1, 1)\<close>).
\<close>

lemma not_vertical_examples: "\<not> vertical 0" "\<not> vertical (pi / 4)"
  using pi_ge_two by (simp_all add: vertical_def)

lemmas zc_eval' = ZCylinder_intersection_def not_vertical_examples ZCylinder_coeffs fdiv_def
  ftan_def store_root_def in_direction_def setCoords_def Let_def

lemma horizontal_ray_never_counted:
  "ZCylinder_intersection (fst (ZCylinder_ctor 0 0 1 0 [] initial_globals))
       (setCoords (- 2) 0 0) 0 (pi / 2) (\<lambda>_. setCoords 9 9 9)
     = Some (Returned 0, (\<lambda>_. setCoords 9 9 9)(0 := setCoords (- 1) 0 0))"
  by (simp add: zc_eval')

lemma tangent_reads_stale_buffer:
  "ZCylinder_intersection (fst (ZCylinder_ctor 0 0 (sqrt 2) 0 [] initial_globals))
       (setCoords (- 2) 0 0) (pi / 4) (pi / 2) (\<lambda>_. setCoords 9 9 9)
     = Some (Returned 1, (\<lambda>_. setCoords 9 9 9)(0 := setCoords (- 1) 11 0))
   \<and> ZCylinder_intersection (fst (ZCylinder_ctor 0 0 (sqrt 2) 0 [] initial_globals))
       (setCoords (- 2) 0 0) (pi / 4) (pi / 2) (\<lambda>_. setCoords (- 5) 9 9)
     = Some (Returned 0, (\<lambda>_. setCoords (- 5) 9 9)(0 := setCoords (- 1) (- 3) 0))"
  by (simp add: zc_eval' sin_45 cos_45)

section \<open>A call that returns nothing\<close>

text \<open>
  Claim C6 says that no Surface operation other than \<open>addNeighborCell\<close> with an
  invalid halfspace fails under valid geometry. The code breaks it: on the unit
  cylinder the vertical ray from \<open>(1, -2, 0)\<close> is tangent (the discriminant is 0),
  and \<open>ZCylinder::intersection\<close> stores the tangent point and then runs off the end
  of the function, since the branch has no \<open>return\<close> statement (the same branch
  for a ray that is not vertical has one): the call has no defined result.
\<close>

theorem vertical_tangent_no_return:
  "discriminant (fst (ZCylinder_ctor 0 0 1 0 [] initial_globals)) (setCoords 1 (- 2) 0) (pi / 2)
     = 0
   \<and> ZCylinder_intersection (fst (ZCylinder_ctor 0 0 1 0 [] initial_globals))
       (setCoords 1 (- 2) 0) (pi / 2) (pi / 2) (\<lambda>_. setCoords 9 9 9)
     = Some (No_return, (\<lambda>_. setCoords 9 9 9)(0 := setCoords 1 0 0))"
  by (simp add: zc_eval discriminant_def)

end
